theory Spec2Isabelle
  imports
    Main
    "HOL-Library.Char_ord"
    "HOL-Library.List_Lexorder"
    "HOL-Library.Product_Lexorder"
    "HOL-Library.Multiset"
begin

section \<open>Python values\<close>

text \<open>
  The cells of a DataFrame and the values of a record dictionary. \<open>PNaN\<close> is the float
  NaN that pandas uses for a missing number. \<open>PFloat i\<close> is the float of the whole
  number \<open>i\<close>, which is what pandas makes of an integer when it turns a column into
  floats; it is exact up to 2 to the power 53. Floats with a fraction are left out of the
  model. A datetime carries its UTC offset in minutes when it is timezone-aware.
\<close>

datatype pyval =
    PNone
  | PNaN
  | PBool bool
  | PInt int
  | PFloat int
  | PStr string
  | PList "pyval list"
  | PDate nat nat nat
  | PDatetime nat nat nat nat nat nat "int option"

datatype py_error =
    ValueError
  | TypeError
  | KeyError
  | NameError
  | IndexError
  | AttributeError
  | ZeroDivisionError
  | SalesforceMalformedRequest
  | ConnectionError
  | SalesforceRefusedRequest
  | OtherError

type_synonym py_dict = "(string \<times> pyval) list"

text \<open>Truthiness, \<open>bool(v)\<close>.\<close>

fun truthy :: "pyval \<Rightarrow> bool" where
  "truthy PNone = False"
| "truthy PNaN = True"
| "truthy (PBool b) = b"
| "truthy (PInt i) = (i \<noteq> 0)"
| "truthy (PFloat i) = (i \<noteq> 0)"
| "truthy (PStr s) = (s \<noteq> [])"
| "truthy (PList xs) = (xs \<noteq> [])"
| "truthy (PDate y m d) = True"
| "truthy (PDatetime y m d hh mm ss tz) = True"

text \<open>\<open>len(v)\<close> for the values that have \<open>__len__\<close>.\<close>

fun py_len :: "pyval \<Rightarrow> nat option" where
  "py_len (PStr s) = Some (length s)"
| "py_len (PList xs) = Some (length xs)"
| "py_len v = None"

fun is_date :: "pyval \<Rightarrow> bool" where
  "is_date (PDate y m d) = True"
| "is_date (PDatetime y m d hh mm ss tz) = True"
| "is_date v = False"

text \<open>\<open>pd.isna\<close> on a scalar, which is also what \<open>dropna\<close> and \<open>notna\<close> test.\<close>

fun isna :: "pyval \<Rightarrow> bool" where
  "isna PNone = True"
| "isna PNaN = True"
| "isna v = False"

subsection \<open>Text of a value\<close>

definition digit_char :: "nat \<Rightarrow> char" where
  "digit_char n = char_of (48 + n)"

fun digits :: "nat \<Rightarrow> string" where
  "digits n = (if n < 10 then [digit_char n] else digits (n div 10) @ [digit_char (n mod 10)])"

declare digits.simps [simp del]

definition pad :: "nat \<Rightarrow> nat \<Rightarrow> string" where
  "pad w n = replicate (w - length (digits n)) (CHR ''0'') @ digits n"

definition show_int :: "int \<Rightarrow> string" where
  "show_int i = (if i < 0 then CHR ''-'' # digits (nat (- i)) else digits (nat i))"

fun join :: "string \<Rightarrow> string list \<Rightarrow> string" where
  "join sep [] = []"
| "join sep [x] = x"
| "join sep (x # y # ys) = x @ sep @ join sep (y # ys)"

text \<open>The UTC offset as \<open>%z\<close> prints it (\<open>+0000\<close>), and as \<open>str\<close> prints it (\<open>+00:00\<close>).\<close>

definition utc_offset :: "string \<Rightarrow> int option \<Rightarrow> string" where
  "utc_offset sep tz =
     (case tz of
        None \<Rightarrow> []
      | Some off \<Rightarrow>
          (if off < 0 then ''-'' else ''+'')
          @ pad 2 (nat \<bar>off\<bar> div 60) @ sep @ pad 2 (nat \<bar>off\<bar> mod 60))"

definition ymd :: "nat \<Rightarrow> nat \<Rightarrow> nat \<Rightarrow> string" where
  "ymd y m d = pad 4 y @ ''-'' @ pad 2 m @ ''-'' @ pad 2 d"

definition hms :: "nat \<Rightarrow> nat \<Rightarrow> nat \<Rightarrow> string" where
  "hms hh mm ss = pad 2 hh @ '':'' @ pad 2 mm @ '':'' @ pad 2 ss"

text \<open>\<open>value.strftime(SF_DATE_FORMAT)\<close>, with \<open>SF_DATE_FORMAT = "%Y-%m-%d"\<close>.\<close>

fun strftime_date :: "pyval \<Rightarrow> string" where
  "strftime_date (PDate y m d) = ymd y m d"
| "strftime_date (PDatetime y m d hh mm ss tz) = ymd y m d"
| "strftime_date v = []"

text \<open>\<open>value.strftime(SF_DATETIME_FORMAT)\<close>, with
  \<open>SF_DATETIME_FORMAT = "%Y-%m-%dT%H:%M:%S%z"\<close>; a date has midnight and no offset.\<close>

fun strftime_datetime :: "pyval \<Rightarrow> string" where
  "strftime_datetime (PDate y m d) = ymd y m d @ ''T'' @ hms 0 0 0"
| "strftime_datetime (PDatetime y m d hh mm ss tz) =
     ymd y m d @ ''T'' @ hms hh mm ss @ utc_offset [] tz"
| "strftime_datetime v = []"

text \<open>\<open>unicode(v)\<close>. The elements of a list are shown by the same function, which is
  Python's text for lists of numbers, booleans and None. A whole float is shown with
  \<open>.0\<close> after its digits, which is its text below 10 to the power 12 in magnitude;
  above, Python writes an exponent.\<close>

fun py_unicode :: "pyval \<Rightarrow> string" where
  "py_unicode PNone = ''None''"
| "py_unicode PNaN = ''nan''"
| "py_unicode (PBool b) = (if b then ''True'' else ''False'')"
| "py_unicode (PInt i) = show_int i"
| "py_unicode (PFloat i) = show_int i @ ''.0''"
| "py_unicode (PStr s) = s"
| "py_unicode (PList xs) = ''['' @ join '', '' (map py_unicode xs) @ '']''"
| "py_unicode (PDate y m d) = ymd y m d"
| "py_unicode (PDatetime y m d hh mm ss tz) =
     ymd y m d @ '' '' @ hms hh mm ss @ utc_offset '':'' tz"

text \<open>\<open>record.get(key)\<close>: None when the key is missing.\<close>

definition dict_get :: "py_dict \<Rightarrow> string \<Rightarrow> pyval" where
  "dict_get r k = (case map_of r k of None \<Rightarrow> PNone | Some v \<Rightarrow> v)"

section \<open>Building WHERE clauses\<close>

text \<open>\<open>s.replace("'", "\\'")\<close>: a backslash before every single quote.\<close>

fun escape_quotes :: "string \<Rightarrow> string" where
  "escape_quotes [] = []"
| "escape_quotes (c # cs) =
     (if c = CHR 0x27 then CHR 0x5C # CHR 0x27 # escape_quotes cs else c # escape_quotes cs)"

text \<open>One comparison term, in the order of the source's \<open>isinstance\<close> tests: bool,
  date or datetime, number, anything else as quoted text.\<close>

definition where_item :: "string \<Rightarrow> pyval \<Rightarrow> string" where
  "where_item sf_name v =
     (case v of
        PBool b \<Rightarrow> sf_name @ '' = '' @ (if b then ''TRUE'' else ''FALSE'')
      | PDate y m d \<Rightarrow>
          (if sf_name = ''LastModifiedDate'' then sf_name @ '' >= '' @ strftime_datetime v
           else sf_name @ '' = '' @ [CHR 0x27] @ strftime_datetime v @ [CHR 0x27])
      | PDatetime y m d hh mm ss tz \<Rightarrow>
          (if sf_name = ''LastModifiedDate'' then sf_name @ '' >= '' @ strftime_datetime v
           else sf_name @ '' = '' @ [CHR 0x27] @ strftime_datetime v @ [CHR 0x27])
      | PInt i \<Rightarrow> sf_name @ '' = '' @ py_unicode v
      | PFloat i \<Rightarrow> sf_name @ '' = '' @ py_unicode v
      | PNaN \<Rightarrow> sf_name @ '' = '' @ py_unicode v
      | _ \<Rightarrow> sf_name @ '' = '' @ [CHR 0x27] @ escape_quotes (py_unicode v) @ [CHR 0x27])"

text \<open>
  The field mapping is a dictionary from the record's key to the Salesforce field name,
  given as the list of its items. \<open>sorted(listitems(field_mapping))\<close> sorts the
  (key, Salesforce name) pairs, so by key first. \<open>predicate_terms\<close> is the list of
  the pairs that contribute a term for this record, in the order of the iteration.
\<close>

definition predicate_terms :: "(string \<times> string) list \<Rightarrow> py_dict \<Rightarrow> (string \<times> string) list" where
  "predicate_terms field_mapping r =
     filter (\<lambda>(value_key, sf_name). dict_get r value_key \<noteq> PNone) (sort field_mapping)"

definition where_items :: "(string \<times> string) list \<Rightarrow> py_dict \<Rightarrow> string list" where
  "where_items field_mapping r =
     map (\<lambda>(value_key, sf_name). where_item sf_name (dict_get r value_key))
       (predicate_terms field_mapping r)"

definition predicate :: "(string \<times> string) list \<Rightarrow> py_dict \<Rightarrow> string" where
  "predicate field_mapping r = ''('' @ join '' AND '' (where_items field_mapping r) @ '')''"

text \<open>The predicates of the records that have a term, in the order of the records.\<close>

definition predicates_of :: "(string \<times> string) list \<Rightarrow> py_dict list \<Rightarrow> string list" where
  "predicates_of field_mapping search_values =
     map (predicate field_mapping) (filter (\<lambda>r. where_items field_mapping r \<noteq> []) search_values)"

text \<open>
  The loop of \<open>_sf_build_where_clauses\<close> over the records still to come, with the
  clause being accumulated and the clauses already closed. The record is the last one
  (\<open>idx == len(search_values) - 1\<close>) exactly when no record follows it.
\<close>

fun build_loop ::
  "nat \<Rightarrow> (string \<times> string) list \<Rightarrow> py_dict list \<Rightarrow> string \<Rightarrow> string list \<Rightarrow> string list" where
  "build_loop mx fm [] current_where sf_where_clauses = sf_where_clauses"
| "build_loop mx fm (r # rs) current_where sf_where_clauses =
     (let (cur, acc) =
            (if length current_where > mx then ([], sf_where_clauses @ [current_where])
             else (current_where, sf_where_clauses))
      in if where_items fm r = [] then build_loop mx fm rs cur acc
         else
           (let cur' = (if cur \<noteq> [] then join '' OR '' [cur, predicate fm r]
                        else predicate fm r)
            in if length cur' > mx \<or> rs = [] then build_loop mx fm rs [] (acc @ [cur'])
               else build_loop mx fm rs cur' acc))"

definition MAX_WHERE_CLAUSE :: nat where
  "MAX_WHERE_CLAUSE = 3500"

definition sf_build_where_clauses_max ::
  "nat \<Rightarrow> py_dict list \<Rightarrow> (string \<times> string) list \<Rightarrow> string list" where
  "sf_build_where_clauses_max mx search_values field_mapping =
     build_loop mx field_mapping search_values [] []"

definition sf_build_where_clauses :: "py_dict list \<Rightarrow> (string \<times> string) list \<Rightarrow> string list" where
  "sf_build_where_clauses search_values field_mapping =
     sf_build_where_clauses_max MAX_WHERE_CLAUSE search_values field_mapping"

section \<open>The Salesforce client and its trace\<close>

text \<open>
  One entry of the list that a bulk upsert returns, or of the list that
  \<open>_send_records_one_at_a_time\<close> builds: a dictionary with the keys \<open>id\<close>,
  \<open>success\<close>, \<open>created\<close> and \<open>errors\<close>, each of which may be missing
  (\<open>None\<close> here), or something that is not a dictionary. An entry of \<open>errors\<close> is
  reduced to its \<open>statusCode\<close> (the empty string when it has none), or \<open>None\<close>
  when the entry is not a dictionary.
\<close>

datatype upsert_result =
    NotADict
  | ResultDict (r_id: "pyval option") (r_success: "pyval option") (r_created: "pyval option")
      (r_errors: "string option list option")

text \<open>The three keys of an entry of the returned results.\<close>

record outcome =
  o_success :: bool
  o_quorum_id :: pyval
  o_sf_id :: pyval

datatype sf_call =
    BulkUpsert string "py_dict list" string
  | Update string string py_dict
  | Create py_dict
  | QueryAll string bool

datatype event =
    LogCountMismatch nat nat
  | NotifyCouldNotUpsert string py_error
  | NotifyNowhereToStore string "(pyval \<times> pyval) list"
  | NotifyUpsertFailedEntirely string "outcome list"
  | NotifyExpiredPassword
  | NotifyRefused
  | NotifyErrorGettingError
  | SendExtIdsToQuorum string "(pyval \<times> pyval) list"
  | UpdateExternalIdDict string

text \<open>
  The state threaded through the code: the calls made to the Salesforce client so far, in
  order, and the notifications, warnings and Quorum-side updates issued so far.
\<close>

record world =
  calls :: "sf_call list"
  events :: "event list"

text \<open>
  The client is outside the repository. Its answer to the n-th call (counting from 0 over
  all calls of the run) is a parameter: it raises, or it returns a value. For a query
  that is refused, \<open>refusal_code\<close> is the \<open>errorCode\<close> read from the content of
  the refusal, or \<open>None\<close> when reading it raises.
\<close>

record sf_client =
  bulk_upsert :: "nat \<Rightarrow> py_error + upsert_result list"
  update_reply :: "nat \<Rightarrow> py_error + pyval"
  create_reply :: "nat \<Rightarrow> py_error + upsert_result"
  query_all :: "nat \<Rightarrow> py_error + py_dict list"
  refusal_code :: "nat \<Rightarrow> string option"

definition do_call :: "world \<Rightarrow> sf_call \<Rightarrow> world" where
  "do_call w c = w\<lparr>calls := calls w @ [c]\<rparr>"

definition emit :: "world \<Rightarrow> event \<Rightarrow> world" where
  "emit w e = w\<lparr>events := events w @ [e]\<rparr>"

definition bookkeeping_key :: string where
  "bookkeeping_key = ''quorum_side_primary_key''"

text \<open>The dictionary left by \<open>record.pop(k)\<close>.\<close>

definition dict_pop :: "string \<Rightarrow> py_dict \<Rightarrow> py_dict" where
  "dict_pop k r = filter (\<lambda>(k', v). k' \<noteq> k) r"

section \<open>Batch upsert\<close>

definition should_ignore_error :: "string \<Rightarrow> upsert_result \<Rightarrow> py_error + bool" where
  "should_ignore_error salesforce_model response =
     (if salesforce_model = ''CampaignMember'' then
        (case response of
           NotADict \<Rightarrow> Inl TypeError
         | ResultDict i s c es \<Rightarrow>
             (case es of
                None \<Rightarrow> Inl KeyError
              | Some [] \<Rightarrow> Inl IndexError
              | Some (None # rest) \<Rightarrow> Inl AttributeError
              | Some (Some status_code # rest) \<Rightarrow>
                  (if status_code = ''INVALID_FIELD_FOR_INSERT_UPDATE'' then Inr True
                   else Inr False)))
      else Inr False)"

definition failed :: "pyval \<Rightarrow> outcome" where
  "failed quorum_id = \<lparr>o_success = False, o_quorum_id = quorum_id, o_sf_id = PNone\<rparr>"

text \<open>
  The body of the loop over \<open>zip(quorum_id_list, upsert_result_list)\<close>. Every path
  appends one entry: the success branch, the else branch, and the \<open>except\<close> branch
  reached when a key is missing, the entry is not a dictionary or
  \<open>_should_ignore_error\<close> raises.
\<close>

definition record_result :: "string \<Rightarrow> pyval \<times> upsert_result \<Rightarrow> outcome" where
  "record_result salesforce_model one_result =
     (case one_result of (quorum_id, obj_upsert_result) \<Rightarrow>
        (case obj_upsert_result of
           NotADict \<Rightarrow> failed quorum_id
         | ResultDict rid rsuccess rcreated rerrors \<Rightarrow>
             (case rsuccess of
                None \<Rightarrow> failed quorum_id
              | Some s \<Rightarrow>
                  (if truthy s then
                     (case rid of
                        None \<Rightarrow> failed quorum_id
                      | Some i \<Rightarrow>
                          (if truthy i
                           then \<lparr>o_success = True, o_quorum_id = quorum_id, o_sf_id = i\<rparr>
                           else (case should_ignore_error salesforce_model obj_upsert_result of
                                   Inl e \<Rightarrow> failed quorum_id
                                 | Inr ignore \<Rightarrow> failed quorum_id)))
                   else (case should_ignore_error salesforce_model obj_upsert_result of
                           Inl e \<Rightarrow> failed quorum_id
                         | Inr ignore \<Rightarrow> failed quorum_id)))))"

subsection \<open>One record at a time\<close>

text \<open>
  The body of the loop of \<open>_send_records_one_at_a_time\<close> for one record. The variable
  \<open>outcome\<close> of the source is only assigned on some paths and keeps its value from one
  record to the next, so it is threaded through (\<open>None\<close> while it is unbound, where
  reading it raises NameError). Every exception is caught and becomes an entry.
\<close>

definition caught_entry :: upsert_result where
  "caught_entry = ResultDict (Some (PStr ''None'')) (Some (PBool False)) (Some (PBool False)) (Some [None])"

definition built_entry :: "upsert_result option \<Rightarrow> bool \<Rightarrow> upsert_result" where
  "built_entry outcome created =
     (case outcome of
        None \<Rightarrow> caught_entry
      | Some NotADict \<Rightarrow>
          ResultDict (Some PNone) (Some (PBool False)) (Some (PBool created)) (Some [None])
      | Some (ResultDict i s c es) \<Rightarrow>
          ResultDict (Some (case i of None \<Rightarrow> PNone | Some v \<Rightarrow> v))
            (Some (case s of None \<Rightarrow> PNone | Some v \<Rightarrow> v)) (Some (PBool created)) (Some []))"

definition send_one ::
  "sf_client \<Rightarrow> string \<Rightarrow> string \<Rightarrow> py_dict \<Rightarrow> world \<times> upsert_result option \<Rightarrow>
   upsert_result \<times> world \<times> upsert_result option" where
  "send_one sf salesforce_model match_on record st =
     (case st of (w, outcome) \<Rightarrow>
        (case map_of record ''Id'' of
           None \<Rightarrow> (caught_entry, w, outcome)
         | Some sf_id \<Rightarrow>
             (let record1 = dict_pop ''Id'' record in
              if match_on \<noteq> ''Id'' \<and> map_of record1 match_on = None
              then (caught_entry, w, outcome)
              else
                (let match_value = (if match_on \<noteq> ''Id'' then dict_get record1 match_on else sf_id);
                     record2 = (if match_on \<noteq> ''Id'' then dict_pop match_on record1 else record1)
                 in if match_on \<noteq> ''Id'' \<and> \<not> truthy match_value
                    then (ResultDict (Some sf_id) (Some (PBool False)) (Some (PBool False)) (Some [None]),
                          w, outcome)
                    else if truthy match_value then
                      (let w' = do_call w
                                  (Update salesforce_model (match_on @ ''/'' @ py_unicode match_value) record2)
                       in case update_reply sf (length (calls w)) of
                            Inl e \<Rightarrow> (caught_entry, w', outcome)
                          | Inr response_code \<Rightarrow>
                              (let outcome' =
                                     (if response_code = PInt 204
                                      then Some (ResultDict (Some sf_id) (Some (PBool True))
                                                   (Some (PBool False)) (Some []))
                                      else outcome)
                               in (built_entry outcome' True, w', outcome')))
                    else
                      (let w' = do_call w (Create record2)
                       in case create_reply sf (length (calls w)) of
                            Inl e \<Rightarrow> (caught_entry, w', outcome)
                          | Inr created_outcome \<Rightarrow>
                              (built_entry (Some created_outcome) False, w', Some created_outcome))))))"

fun send_loop ::
  "sf_client \<Rightarrow> string \<Rightarrow> string \<Rightarrow> py_dict list \<Rightarrow> world \<times> upsert_result option \<Rightarrow>
   upsert_result list \<times> world" where
  "send_loop sf salesforce_model match_on [] st = ([], fst st)"
| "send_loop sf salesforce_model match_on (record # rest) st =
     (case send_one sf salesforce_model match_on record st of
        (entry, w', outcome') \<Rightarrow>
          (case send_loop sf salesforce_model match_on rest (w', outcome') of
             (entries, w'') \<Rightarrow> (entry # entries, w'')))"

definition send_records_one_at_a_time ::
  "sf_client \<Rightarrow> world \<Rightarrow> string \<Rightarrow> py_dict list \<Rightarrow> string \<Rightarrow> upsert_result list \<times> world" where
  "send_records_one_at_a_time sf w salesforce_model external_list match_on =
     send_loop sf salesforce_model match_on external_list (w, None)"

subsection \<open>One chunk\<close>

definition upsert_bulk_wrapper ::
  "sf_client \<Rightarrow> world \<Rightarrow> string \<Rightarrow> py_dict list \<Rightarrow> string \<Rightarrow>
   (py_error + upsert_result list) \<times> world" where
  "upsert_bulk_wrapper sf w salesforce_model to_upsert_chunked match_on =
     (bulk_upsert sf (length (calls w)),
      do_call w (BulkUpsert salesforce_model to_upsert_chunked match_on))"

text \<open>The records as they are sent: the bookkeeping key is popped from each of them.\<close>

definition submit_chunk ::
  "sf_client \<Rightarrow> world \<Rightarrow> string \<Rightarrow> py_dict list \<Rightarrow> string \<Rightarrow>
   (py_error + upsert_result list) \<times> world" where
  "submit_chunk sf w salesforce_model to_upsert_chunked match_on =
     (let stripped = map (dict_pop bookkeeping_key) to_upsert_chunked
      in if salesforce_model = ''ContentNote''
         then (case send_records_one_at_a_time sf w salesforce_model stripped match_on of
                 (entries, w') \<Rightarrow> (Inr entries, w'))
         else upsert_bulk_wrapper sf w salesforce_model stripped match_on)"

text \<open>\<open>record.pop("quorum_side_primary_key", None)\<close> for each record of the chunk.\<close>

definition quorum_ids :: "py_dict list \<Rightarrow> pyval list" where
  "quorum_ids to_upsert_chunked = map (\<lambda>record. dict_get record bookkeeping_key) to_upsert_chunked"

text \<open>The loop over \<open>zip(quorum_id_list, upsert_result_list)\<close>, which ends with the
  shorter of the two lists.\<close>

definition output_results :: "string \<Rightarrow> pyval list \<Rightarrow> upsert_result list \<Rightarrow> outcome list" where
  "output_results salesforce_model quorum_id_list upsert_result_list =
     map (record_result salesforce_model) (zip quorum_id_list upsert_result_list)"

definition run_upsert_chunk ::
  "sf_client \<Rightarrow> world \<Rightarrow> string \<Rightarrow> py_dict list \<Rightarrow> string \<Rightarrow>
   (py_error + outcome list) \<times> world" where
  "run_upsert_chunk sf w salesforce_model to_upsert_chunked match_on =
     (let quorum_id_list = quorum_ids to_upsert_chunked
      in case submit_chunk sf w salesforce_model to_upsert_chunked match_on of
           (Inl e, w') \<Rightarrow> (Inl e, w')
         | (Inr upsert_result_list, w') \<Rightarrow>
             (Inr (output_results salesforce_model quorum_id_list upsert_result_list),
              if length quorum_id_list \<noteq> length upsert_result_list
              then emit w' (LogCountMismatch (length upsert_result_list) (length quorum_id_list))
              else w'))"

subsection \<open>All chunks\<close>

text \<open>
  Modelled from the spec: \<open>chunked_list\<close>, which the module imports from a helper
  that is not among the sources. The spec has the records partitioned into ordered
  chunks of at most the maximum size, the last one holding the remainder.
\<close>

function chunked_list :: "'a list \<Rightarrow> nat \<Rightarrow> 'a list list" where
  "chunked_list xs n = (if n = 0 \<or> xs = [] then [] else take n xs # chunked_list (drop n xs) n)"
  by pat_completeness auto
termination
  by (relation "measure (\<lambda>(xs, n). length xs)") auto

declare chunked_list.simps [simp del]

text \<open>
  The loop inside the \<open>try\<close>: it stops at the first chunk that raises, with the
  exception and the results gathered up to there.
\<close>

fun upsert_loop ::
  "sf_client \<Rightarrow> string \<Rightarrow> string \<Rightarrow> py_dict list list \<Rightarrow> world \<Rightarrow> outcome list \<Rightarrow>
   (py_error \<times> outcome list + outcome list) \<times> world" where
  "upsert_loop sf salesforce_model match_on [] w total_results = (Inr total_results, w)"
| "upsert_loop sf salesforce_model match_on (chunk # chunks) w total_results =
     (case run_upsert_chunk sf w salesforce_model chunk match_on of
        (Inl e, w') \<Rightarrow> (Inl (e, total_results), w')
      | (Inr results, w') \<Rightarrow>
          upsert_loop sf salesforce_model match_on chunks w' (total_results @ results))"

text \<open>\<open>if not match_on: match_on = "Id"\<close>\<close>

definition match_on_or_id :: "string option \<Rightarrow> string" where
  "match_on_or_id match_on =
     (case match_on of None \<Rightarrow> ''Id'' | Some m \<Rightarrow> if m = [] then ''Id'' else m)"

definition SF_API_MAX_BATCH_SIZE :: nat where
  "SF_API_MAX_BATCH_SIZE = 10000"

text \<open>
  \<open>run_upsert_to_sf\<close>. The batch size is a natural number here. The \<open>except\<close>
  clause names two exception classes; any other exception leaves the function, as does
  the division by a batch size of zero, which is inside the \<open>try\<close>.
\<close>

definition run_upsert_to_sf ::
  "sf_client \<Rightarrow> world \<Rightarrow> string \<Rightarrow> py_dict list \<Rightarrow> nat \<Rightarrow> string option \<Rightarrow>
   (py_error + bool \<times> outcome list) \<times> world" where
  "run_upsert_to_sf sf w salesforce_model send_df max_batch_size match_on =
     (let match_on' = match_on_or_id match_on;
          external_list = send_df
      in if max_batch_size = 0 then (Inl ZeroDivisionError, w)
         else
           (case upsert_loop sf salesforce_model match_on'
                   (chunked_list external_list max_batch_size) w [] of
              (Inr total_results, w') \<Rightarrow> (Inr (True, total_results), w')
            | (Inl (e, total_results), w') \<Rightarrow>
                (if e = SalesforceMalformedRequest \<or> e = ConnectionError
                 then (Inr (False, total_results), emit w' (NotifyCouldNotUpsert salesforce_model e))
                 else (Inl e, w'))))"

section \<open>Normalising a DataFrame against the Salesforce field definitions\<close>

text \<open>
  A DataFrame is the list of its columns, each with its cells from the first row to the
  last. The field definitions are the dictionary that
  \<open>get_sf_field_definition_dict\<close> returns, of which the normaliser reads the type, the
  length and the pick list.
\<close>

type_synonym dataframe = "(string \<times> pyval list) list"

record field_definition =
  fd_type :: string
  fd_length :: nat
  fd_picklist :: "string list option"

datatype norm_message =
    InvalidColumn string string
  | Unhashable string
  | NonDates string "pyval list"
  | BadPicklist string "pyval list"
  | NoPicklist string
  | WrongIdLength string "pyval list"
  | NonBool string "pyval list"
  | NotStringable string "pyval list"
  | OverLength string nat "pyval list"
  | UnrecognizedType string string

text \<open>\<open>Series.unique()\<close>: the distinct values in the order in which they first occur.\<close>

definition unique :: "'a list \<Rightarrow> 'a list" where
  "unique xs = rev (remdups (rev xs))"

text \<open>
  \<open>Series.map\<close> builds the new column from the values the function returns and
  settles its type anew. When the values are numbers and None only, with no boolean among
  them, and a float is among them or an integer beside a None, the column becomes a column
  of floats: None becomes NaN and an integer its float. Otherwise the values stay as the
  function returned them.
\<close>

fun numeric_or_null :: "pyval \<Rightarrow> bool" where
  "numeric_or_null PNone = True"
| "numeric_or_null PNaN = True"
| "numeric_or_null (PInt i) = True"
| "numeric_or_null (PFloat i) = True"
| "numeric_or_null v = False"

fun is_float :: "pyval \<Rightarrow> bool" where
  "is_float PNaN = True"
| "is_float (PFloat i) = True"
| "is_float v = False"

fun is_int :: "pyval \<Rightarrow> bool" where
  "is_int (PInt i) = True"
| "is_int v = False"

fun to_float :: "pyval \<Rightarrow> pyval" where
  "to_float PNone = PNaN"
| "to_float (PInt i) = PFloat i"
| "to_float v = v"

definition becomes_float :: "pyval list \<Rightarrow> bool" where
  "becomes_float xs \<longleftrightarrow>
     list_all numeric_or_null xs
     \<and> (list_ex is_float xs \<or> (list_ex (\<lambda>v. v = PNone) xs \<and> list_ex is_int xs))"

definition infer_dtype :: "pyval list \<Rightarrow> pyval list" where
  "infer_dtype xs = (if becomes_float xs then map to_float xs else xs)"

definition series_map :: "(pyval \<Rightarrow> pyval) \<Rightarrow> pyval list \<Rightarrow> pyval list" where
  "series_map f column = infer_dtype (map f column)"

text \<open>
  \<open>lambda value: value if not hasattr(value, "__len__") else None if len(value) == 0
  else value\<close>
\<close>

definition empty_to_none :: "pyval \<Rightarrow> pyval" where
  "empty_to_none v = (case py_len v of None \<Rightarrow> v | Some n \<Rightarrow> if n = 0 then PNone else v)"

fun is_list :: "pyval \<Rightarrow> bool" where
  "is_list (PList xs) = True"
| "is_list v = False"

definition is_datelike :: "pyval \<Rightarrow> bool" where
  "is_datelike v \<longleftrightarrow> truthy v \<and> is_date v"

text \<open>\<open>_check_picklist_values\<close>; no list reaches it, since a column that holds a list
  has raised before.\<close>

definition check_picklist_values :: "pyval \<Rightarrow> string list \<Rightarrow> pyval" where
  "check_picklist_values value picklist =
     (if isna value then PNone
      else
        (let v = (case value of PFloat i \<Rightarrow> PInt i | _ \<Rightarrow> value)
         in if v \<noteq> PNone \<and> v \<noteq> PStr []
               \<and> \<not> (case v of PStr s \<Rightarrow> s \<in> set picklist | _ \<Rightarrow> False)
            then v else PNone))"

text \<open>\<open>len(unicode(x)) not in [0, 15, 18] if x else False\<close>\<close>

definition wrong_length :: "pyval \<Rightarrow> bool" where
  "wrong_length x \<longleftrightarrow>
     (if truthy x then length (py_unicode x) \<notin> set [0, 15, 18] else False)"

text \<open>\<open>x not in [True, False, None, "0", " "]\<close>, where 1 equals True and 0 equals False.\<close>

definition not_bool_value :: "pyval \<Rightarrow> bool" where
  "not_bool_value x \<longleftrightarrow>
     x \<notin> set [PBool True, PBool False, PNone, PStr ''0'', PStr '' '', PInt 1, PInt 0,
                PFloat 1, PFloat 0]"

text \<open>\<open>not isinstance(x, (str, unicode, int, float))\<close> after \<open>fillna("")\<close>.\<close>

definition not_stringable :: "pyval \<Rightarrow> bool" where
  "not_stringable x \<longleftrightarrow>
     (case (if isna x then PStr [] else x) of
        PStr s \<Rightarrow> False | PInt i \<Rightarrow> False | PFloat i \<Rightarrow> False | PBool b \<Rightarrow> False
      | PNaN \<Rightarrow> False | _ \<Rightarrow> True)"

text \<open>
  The field-by-field processing of a column whose field is defined: the new column, the
  error messages it adds, and whether it makes the errors fatal. Where the source assigns
  the result of \<open>Series.map\<close> to the column, or reads its distinct values, the type
  of the mapped column is settled anew.
\<close>

definition validate_field ::
  "field_definition \<Rightarrow> string \<Rightarrow> pyval list \<Rightarrow> pyval list \<times> norm_message list \<times> bool" where
  "validate_field fd field_name column =
     (let field_datatype = fd_type fd in
      if field_datatype \<in> set [''date'', ''datetime''] then
        (let nondates = unique (filter (\<lambda>v. \<not> is_datelike v) column)
         in (series_map (\<lambda>v. if is_datelike v
                               then PStr (if field_datatype = ''date'' then strftime_date v
                                          else strftime_datetime v)
                               else PNone) column,
             (if nondates \<noteq> [] then [NonDates field_name nondates] else []),
             False))
      else if field_datatype = ''picklist'' then
        (case fd_picklist fd of
           Some picklist \<Rightarrow>
             (let values_not_in_picklist =
                    remove1 PNone
                      (unique (series_map (\<lambda>v. check_picklist_values v picklist) column))
              in (column,
                  (if values_not_in_picklist \<noteq> []
                   then [BadPicklist field_name values_not_in_picklist] else []),
                  False))
         | None \<Rightarrow> (column, [NoPicklist field_name], False))
      else if field_datatype \<in> set [''id'', ''reference''] then
        (let wrong_length_rows = unique (filter wrong_length column)
         in (series_map (\<lambda>v. if truthy v then v else PNone) column,
             (if wrong_length_rows \<noteq> [] then [WrongIdLength field_name wrong_length_rows] else []),
             wrong_length_rows \<noteq> [] \<and> field_datatype = ''id''))
      else if field_datatype = ''boolean'' then
        (let non_bool_values = unique (filter not_bool_value column)
         in (column,
             (if non_bool_values \<noteq> [] then [NonBool field_name non_bool_values] else []),
             False))
      else if field_datatype \<in> set [''int'', ''float'', ''currency'', ''decimal'', ''double'', ''percent'']
      then (column, [], False)
      else if fd_length fd \<noteq> 0 then
        (let not_stringable_values = filter not_stringable column;
             strings_over_length = filter (\<lambda>v. length (py_unicode v) > fd_length fd) column
         in (column,
             (if not_stringable_values \<noteq> [] then [NotStringable field_name not_stringable_values]
              else [])
             @ (if strings_over_length \<noteq> []
                then [OverLength field_name (fd_length fd) strings_over_length] else []),
             False))
      else if field_datatype = ''address'' then (column, [], False)
      else if field_datatype = ''base64'' then (column, [], False)
      else (column, [UnrecognizedType field_name field_datatype], False))"

text \<open>
  One turn of the loop over the columns. A column without a field definition is skipped
  when it is the bookkeeping key and is a fatal error otherwise. A column that holds a
  list, after the empty values were made None, raises TypeError at once.
\<close>

definition normalize_field ::
  "(string \<Rightarrow> field_definition option) \<Rightarrow> string \<Rightarrow> string \<Rightarrow> pyval list \<Rightarrow>
   py_error + pyval list \<times> norm_message list \<times> bool" where
  "normalize_field field_definitions salesforce_model field_name column =
     (case field_definitions field_name of
        None \<Rightarrow>
          (if field_name = bookkeeping_key then Inr (column, [], False)
           else Inr (column, [InvalidColumn field_name salesforce_model], True))
      | Some fd \<Rightarrow>
          (let column1 = (if fd_type fd \<noteq> ''bool'' then series_map empty_to_none column
                          else column)
           in if list_ex is_list (filter (\<lambda>x. \<not> isna x) column1) then Inl TypeError
              else Inr (validate_field fd field_name column1)))"

fun normalize_columns ::
  "(string \<Rightarrow> field_definition option) \<Rightarrow> string \<Rightarrow> dataframe \<Rightarrow>
   string + dataframe \<times> norm_message list \<times> bool" where
  "normalize_columns field_definitions salesforce_model [] = Inr ([], [], False)"
| "normalize_columns field_definitions salesforce_model ((field_name, column) # rest) =
     (case normalize_field field_definitions salesforce_model field_name column of
        Inl e \<Rightarrow> Inl field_name
      | Inr (column', messages, fatal) \<Rightarrow>
          (case normalize_columns field_definitions salesforce_model rest of
             Inl f \<Rightarrow> Inl f
           | Inr (frame, messages', fatal') \<Rightarrow>
               Inr ((field_name, column') # frame, messages @ messages', fatal \<or> fatal')))"

text \<open>
  \<open>normalize_sf_field_types\<close>: what \<open>log.error\<close> was given, and the exception raised
  or the DataFrame returned. The TypeError of a column that holds a list leaves the loop
  at that column, with only its own message logged.
\<close>

definition normalize_sf_field_types ::
  "(string \<Rightarrow> field_definition option) \<Rightarrow> dataframe \<Rightarrow> string \<Rightarrow>
   norm_message list \<times> (py_error + dataframe)" where
  "normalize_sf_field_types field_definitions dataframe salesforce_model =
     (case normalize_columns field_definitions salesforce_model dataframe of
        Inl field_name \<Rightarrow> ([Unhashable field_name], Inl TypeError)
      | Inr (frame, error_messages, error_fatal) \<Rightarrow>
          (if error_messages \<noteq> []
           then (error_messages, if error_fatal then Inl ValueError else Inr frame)
           else ([], Inr frame)))"

section \<open>Sending to Salesforce and storing the new identifiers\<close>

text \<open>
  What \<open>send_external_df_to_external\<close> reads of the task and of the integration. The
  Quorum model is identified by its object name. A batch size of None or 0 gives way to
  the default. The slug dictionary maps an object name to a slug; the identifier
  dictionary is given by the list of its keys.
\<close>

record task =
  external_model :: string
  quorum_model :: string
  sf_max_batch_size :: "nat option"
  sf_store_ids_in_quorum :: bool
  sf_match_on :: "string option"

record integration =
  external_id_custom_slugs_dict :: "string \<Rightarrow> string option"
  external_id_dictionary :: "string list"

text \<open>The rows of \<open>results_df\<close> where both \<open>quorum_id\<close> and \<open>sf_id\<close> are not
  null, reduced to these two columns.\<close>

definition id_update_df :: "outcome list \<Rightarrow> (pyval \<times> pyval) list" where
  "id_update_df results =
     map (\<lambda>r. (o_quorum_id r, o_sf_id r))
       (filter (\<lambda>r. \<not> isna (o_quorum_id r) \<and> \<not> isna (o_sf_id r)) results)"

text \<open>\<open>task.sf_max_batch_size or self.sf_api.SF_API_MAX_BATCH_SIZE\<close>\<close>

definition batch_size_of :: "task \<Rightarrow> nat" where
  "batch_size_of task =
     (case sf_max_batch_size task of
        None \<Rightarrow> SF_API_MAX_BATCH_SIZE
      | Some n \<Rightarrow> if n = 0 then SF_API_MAX_BATCH_SIZE else n)"

text \<open>\<open>external_df.where(pd.notnull(external_df), None)\<close>\<close>

definition where_notnull :: "py_dict list \<Rightarrow> py_dict list" where
  "where_notnull external_df = map (map (\<lambda>(k, v). (k, if isna v then PNone else v))) external_df"

definition send_external_df_to_external ::
  "sf_client \<Rightarrow> integration \<Rightarrow> world \<Rightarrow> string \<Rightarrow> task \<Rightarrow> py_dict list \<Rightarrow>
   (py_error + bool) \<times> world" where
  "send_external_df_to_external sf self w task_name task external_df =
     (let max_batch_size = batch_size_of task;
          send_df = where_notnull external_df
      in case run_upsert_to_sf sf w (external_model task) send_df max_batch_size
                (sf_match_on task) of
           (Inl e, w') \<Rightarrow> (Inl e, w')
         | (Inr (success, results), w') \<Rightarrow>
             (if success then
                (if \<not> sf_store_ids_in_quorum task then (Inr True, w')
                 else if results = [] then (Inl KeyError, w')
                 else if id_update_df results = [] then (Inr True, w')
                 else if (case external_id_custom_slugs_dict self (quorum_model task) of
                            None \<Rightarrow> False | Some slug \<Rightarrow> slug \<noteq> [])
                 then (Inr True, emit w' (SendExtIdsToQuorum task_name (id_update_df results)))
                 else if quorum_model task \<in> set (external_id_dictionary self)
                 then (Inr True, emit w' (UpdateExternalIdDict (quorum_model task)))
                 else (Inl ValueError,
                       emit w' (NotifyNowhereToStore task_name (id_update_df results))))
              else (Inr False, emit w' (NotifyUpsertFailedEntirely task_name results))))"

section \<open>Querying Salesforce\<close>

definition soql :: "string \<Rightarrow> string \<Rightarrow> string list \<Rightarrow> string" where
  "soql where_clause object_type select_fields =
     (if where_clause \<noteq> []
      then ''SELECT '' @ join '','' select_fields @ '' FROM '' @ object_type
           @ '' WHERE '' @ where_clause @ '' ORDER BY Id''
      else ''SELECT '' @ join '','' select_fields @ '' FROM '' @ object_type @ '' ORDER BY Id'')"

text \<open>
  The notifications of a refused query. The \<open>raise e\<close> that follows the first
  notification is inside the inner \<open>try\<close>, whose \<open>except Exception\<close> catches it,
  notifies once more and raises the refusal; when the error code cannot be read, only that
  last notification is sent.
\<close>

definition refusal_notifications :: "string option \<Rightarrow> event list" where
  "refusal_notifications code =
     (case code of
        None \<Rightarrow> [NotifyErrorGettingError]
      | Some error_code \<Rightarrow>
          (if error_code = ''INVALID_OPERATION_WITH_EXPIRED_PASSWORD''
           then [NotifyExpiredPassword, NotifyErrorGettingError]
           else [NotifyRefused, NotifyErrorGettingError]))"

text \<open>
  \<open>_run_sf_query\<close>. Under \<open>settings.TESTS_IN_PROGRESS\<close> no query is issued. A refused
  request is notified and raised again; any other exception leaves the function too.
\<close>

definition run_sf_query ::
  "sf_client \<Rightarrow> bool \<Rightarrow> world \<Rightarrow> string \<Rightarrow> string \<Rightarrow> string list \<Rightarrow> bool \<Rightarrow>
   (py_error + py_dict list) \<times> world" where
  "run_sf_query sf tests_in_progress w where_clause object_type select_fields include_deleted =
     (if tests_in_progress then (Inr [], w)
      else
        (let w' = do_call w (QueryAll (soql where_clause object_type select_fields) include_deleted)
         in case query_all sf (length (calls w)) of
              Inl e \<Rightarrow>
                (Inl e,
                 if e = SalesforceRefusedRequest
                 then w'\<lparr>events := events w'
                            @ refusal_notifications (refusal_code sf (length (calls w)))\<rparr>
                 else w')
            | Inr records \<Rightarrow> (Inr records, w')))"

text \<open>
  The loop over the where clauses. Run synchronously, an exception ends it. With
  \<open>async_queries\<close> the clauses go to a pool of workers, where an exception of one clause
  is logged and its records are left out; the model takes the clauses in the order of
  submission, the order of completion being free.
\<close>

fun query_loop ::
  "sf_client \<Rightarrow> bool \<Rightarrow> bool \<Rightarrow> string \<Rightarrow> string list \<Rightarrow> bool \<Rightarrow> string list \<Rightarrow> world \<Rightarrow>
   py_dict list \<Rightarrow> (py_error + py_dict list) \<times> world" where
  "query_loop sf tests async_queries object_type select_fields include_deleted [] w all_records =
     (Inr all_records, w)"
| "query_loop sf tests async_queries object_type select_fields include_deleted (sf_where # rest) w
     all_records =
     (case run_sf_query sf tests w sf_where object_type select_fields include_deleted of
        (Inl e, w') \<Rightarrow>
          (if async_queries
           then query_loop sf tests async_queries object_type select_fields include_deleted rest w'
                  all_records
           else (Inl e, w'))
      | (Inr records, w') \<Rightarrow>
          query_loop sf tests async_queries object_type select_fields include_deleted rest w'
            (all_records @ records))"

text \<open>
  The DataFrame built from the records, as the list of its rows: the columns are the
  select fields (KeyError when no record has one of them, NaN where a record lacks it),
  renamed by the field mapping read from the Salesforce name to the key.
\<close>

definition rename_column :: "(string \<times> string) list option \<Rightarrow> string \<Rightarrow> string" where
  "rename_column field_mapping c =
     (case field_mapping of
        None \<Rightarrow> c
      | Some fm \<Rightarrow>
          (case map_of (rev (map (\<lambda>(key, sf_name). (sf_name, key)) fm)) c of
             None \<Rightarrow> c | Some key \<Rightarrow> key))"

definition records_to_frame ::
  "py_dict list \<Rightarrow> string list \<Rightarrow> (string \<times> string) list option \<Rightarrow> py_error + py_dict list" where
  "records_to_frame all_records select_fields field_mapping =
     (if all_records = [] then Inr []
      else if list_ex (\<lambda>c. list_all (\<lambda>r. map_of r c = None) all_records) select_fields
      then Inl KeyError
      else Inr (map (\<lambda>r. map (\<lambda>c. (rename_column field_mapping c,
                                      case map_of r c of None \<Rightarrow> PNaN | Some v \<Rightarrow> v))
                           select_fields)
                  all_records))"

fun supplied :: "'a list option \<Rightarrow> bool" where
  "supplied None = False"
| "supplied (Some xs) = (xs \<noteq> [])"

definition query_sf ::
  "sf_client \<Rightarrow> bool \<Rightarrow> world \<Rightarrow> string \<Rightarrow> string list \<Rightarrow> py_dict list option \<Rightarrow>
   (string \<times> string) list option \<Rightarrow> string list option \<Rightarrow> bool \<Rightarrow> bool \<Rightarrow>
   (py_error + py_dict list) \<times> world" where
  "query_sf sf tests w object_type select_fields search_values field_mapping where_clauses
     include_deleted async_queries =
     (if where_clauses = None \<and> \<not> (supplied search_values \<and> supplied field_mapping)
      then (Inl ValueError, w)
      else
        (let clauses =
               (case where_clauses of
                  Some ws \<Rightarrow> ws
                | None \<Rightarrow> sf_build_where_clauses (case search_values of None \<Rightarrow> [] | Some sv \<Rightarrow> sv)
                            (case field_mapping of None \<Rightarrow> [] | Some fm \<Rightarrow> fm))
         in case query_loop sf tests async_queries object_type select_fields include_deleted
                   clauses w [] of
              (Inl e, w') \<Rightarrow> (Inl e, w')
            | (Inr all_records, w') \<Rightarrow>
                (records_to_frame all_records select_fields
                   (if supplied field_mapping then field_mapping else None), w')))"

section \<open>Importing files from an SFTP source\<close>

datatype server_type = quorum_sftp | s3_bucket | external_sftp | unknown_server

text \<open>
  What the import does to the outside, in order. \<open>CheckForUpdate\<close> carries the
  \<open>save_new_checksum\<close> argument handed to the change check
  (\<open>download_and_check_for_update\<close> or \<open>check_files_for_updates\<close>, neither of which
  is among the sources); \<open>SaveChecksum\<close> is the call of \<open>FileManager.save_file\<close>.
\<close>

datatype sftp_event =
    CheckForUpdate bool
  | DownloadFromFtp
  | SlackNotify
  | LoadFile string
  | SendToQuorum string
  | SaveChecksum string
  | RemoveFile string

text \<open>
  The surroundings of one run: the kind of server, whether the stored credentials are a
  dictionary, the files that the change check reports with their changed flag, and for
  each file whether loading and converting it raises and what sending it to Quorum
  returns or raises.
\<close>

record sftp_env =
  server :: server_type
  credentials_valid :: bool
  found_files :: "(string \<times> bool) list"
  load_and_convert :: "string \<Rightarrow> py_error option"
  send_df_to_quorum :: "string \<Rightarrow> py_error + pyval"
  force :: bool
  dry_run :: bool

definition get_sftp_filepaths_with_change ::
  "sftp_env \<Rightarrow> (py_error + (string \<times> bool) list) \<times> sftp_event list" where
  "get_sftp_filepaths_with_change env =
     (if server env = quorum_sftp then (Inr (found_files env), [CheckForUpdate False])
      else if \<not> credentials_valid env then (Inl ValueError, [SlackNotify])
      else if server env = s3_bucket then (Inr (found_files env), [CheckForUpdate False])
      else if server env = external_sftp
      then (Inr (found_files env), [DownloadFromFtp, CheckForUpdate False])
      else (Inl ValueError, []))"

text \<open>
  The loop over the files: the results gathered and the events. An exception while
  loading, converting or sending leaves the function. The entry that a dry run appends
  (the headers and the converted DataFrame) is stood for by the path of the file.
\<close>

fun process_files ::
  "sftp_env \<Rightarrow> (string \<times> bool) list \<Rightarrow> pyval list \<Rightarrow> sftp_event list \<Rightarrow>
   (py_error + pyval list) \<times> sftp_event list" where
  "process_files env [] results trace = (Inr results, trace)"
| "process_files env ((local_filepath, has_changed) # rest) results trace =
     (if has_changed \<or> force env \<or> dry_run env then
        (case load_and_convert env local_filepath of
           Some e \<Rightarrow> (Inl e, trace @ [LoadFile local_filepath])
         | None \<Rightarrow>
             (if dry_run env
              then process_files env rest (results @ [PStr local_filepath])
                     (trace @ [LoadFile local_filepath])
              else
                (case send_df_to_quorum env local_filepath of
                   Inl e \<Rightarrow>
                     (Inl e, trace @ [LoadFile local_filepath, SendToQuorum local_filepath])
                 | Inr sent \<Rightarrow>
                     process_files env rest (results @ [sent])
                       (trace @ [LoadFile local_filepath, SendToQuorum local_filepath]
                        @ (if has_changed then [SaveChecksum local_filepath] else [])))))
      else process_files env rest results trace)"

datatype task_result = NoFiles | DryRunResults "pyval list" | Succeeded bool

text \<open>\<open>False in results\<close>, where 0 equals False.\<close>

definition false_in :: "pyval list \<Rightarrow> bool" where
  "false_in results \<longleftrightarrow>
     PBool False \<in> set results \<or> PInt 0 \<in> set results \<or> PFloat 0 \<in> set results"

definition run_task_from_external_crm_to_quorum ::
  "sftp_env \<Rightarrow> (py_error + task_result) \<times> sftp_event list" where
  "run_task_from_external_crm_to_quorum env =
     (case get_sftp_filepaths_with_change env of
        (Inl e, trace) \<Rightarrow> (Inl e, trace)
      | (Inr filepaths_with_change, trace) \<Rightarrow>
          (if filepaths_with_change = [] then (Inr NoFiles, trace)
           else
             (case process_files env filepaths_with_change [] trace of
                (Inl e, trace') \<Rightarrow> (Inl e, trace')
              | (Inr results, trace') \<Rightarrow>
                  (let trace'' = trace' @ map (\<lambda>(filepath, changed). RemoveFile filepath)
                                           filepaths_with_change
                   in if dry_run env then (Inr (DryRunResults results), trace'')
                      else if false_in results then (Inr (Succeeded False), trace'')
                      else (Inr (Succeeded True), trace'')))))"

text \<open>The records of the calls made to the client, for reading a trace.\<close>

fun call_records :: "sf_call \<Rightarrow> py_dict list" where
  "call_records (BulkUpsert salesforce_model records match_on) = records"
| "call_records (Update salesforce_model path record) = [record]"
| "call_records (Create record) = [record]"
| "call_records (QueryAll query include_deleted) = []"

section \<open>Example inputs\<close>

definition empty_world :: world where
  "empty_world = \<lparr>calls = [], events = []\<rparr>"

definition ok_result :: "string \<Rightarrow> upsert_result" where
  "ok_result sf_id = ResultDict (Some (PStr sf_id)) (Some (PBool True)) (Some (PBool False)) (Some [])"

definition contact :: "int \<Rightarrow> string \<Rightarrow> py_dict" where
  "contact quorum_id name = [(''quorum_side_primary_key'', PInt quorum_id), (''LastName'', PStr name)]"

definition five_contacts :: "py_dict list" where
  "five_contacts = [contact 1 ''Ames'', contact 2 ''Baker'', contact 3 ''Cole'', contact 4 ''Diaz'',
                    contact 5 ''Evans'']"

text \<open>A client whose first bulk upsert returns two results and whose later ones lose the
  connection; one that refuses every bulk upsert; one that always returns two results;
  one that always returns a single result.\<close>

definition faulty_client :: sf_client where
  "faulty_client =
     \<lparr>bulk_upsert = (\<lambda>k. if k = 0 then Inr [ok_result ''001'', ok_result ''002'']
                          else Inl ConnectionError),
      update_reply = (\<lambda>k. Inl OtherError),
      create_reply = (\<lambda>k. Inl OtherError),
      query_all = (\<lambda>k. Inr []),
      refusal_code = (\<lambda>k. None)\<rparr>"

definition refusing_client :: sf_client where
  "refusing_client =
     \<lparr>bulk_upsert = (\<lambda>k. Inl SalesforceRefusedRequest),
      update_reply = (\<lambda>k. Inl OtherError),
      create_reply = (\<lambda>k. Inl OtherError),
      query_all = (\<lambda>k. Inl SalesforceRefusedRequest),
      refusal_code = (\<lambda>k. Some ''INSUFFICIENT_ACCESS'')\<rparr>"

definition steady_client :: sf_client where
  "steady_client =
     \<lparr>bulk_upsert = (\<lambda>k. Inr [ok_result ''001'', ok_result ''002'']),
      update_reply = (\<lambda>k. Inr (PInt 204)),
      create_reply = (\<lambda>k. Inr (ok_result ''069'')),
      query_all = (\<lambda>k. Inr []),
      refusal_code = (\<lambda>k. None)\<rparr>"

definition short_client :: sf_client where
  "short_client =
     \<lparr>bulk_upsert = (\<lambda>k. Inr [ok_result ''001'']),
      update_reply = (\<lambda>k. Inr (PInt 204)),
      create_reply = (\<lambda>k. Inr (ok_result ''069'')),
      query_all = (\<lambda>k. Inr []),
      refusal_code = (\<lambda>k. None)\<rparr>"



text \<open>Field definitions of a contact: its own id, a reference to an account, a checkbox.\<close>

definition contact_fields :: "string \<Rightarrow> field_definition option" where
  "contact_fields field_name =
     (if field_name = ''Id''
      then Some \<lparr>fd_type = ''id'', fd_length = 18, fd_picklist = None\<rparr>
      else if field_name = ''AccountId''
      then Some \<lparr>fd_type = ''reference'', fd_length = 18, fd_picklist = None\<rparr>
      else if field_name = ''Active__c''
      then Some \<lparr>fd_type = ''boolean'', fd_length = 0, fd_picklist = None\<rparr>
      else None)"

text \<open>A field definition of the type \<open>bool\<close>, which is the type the normaliser exempts.\<close>

definition bool_typed_fields :: "string \<Rightarrow> field_definition option" where
  "bool_typed_fields field_name =
     (if field_name = ''Active__c''
      then Some \<lparr>fd_type = ''bool'', fd_length = 0, fd_picklist = None\<rparr>
      else None)"

text \<open>A task that sends contacts, storing the Salesforce ids in Quorum or not, and an
  integration that has neither a slug nor an identifier dictionary for any model.\<close>

definition contacts_task :: "bool \<Rightarrow> task" where
  "contacts_task store =
     \<lparr>external_model = ''Contact'', quorum_model = ''Supporter'', sf_max_batch_size = None,
      sf_store_ids_in_quorum = store, sf_match_on = None\<rparr>"

definition no_destinations :: integration where
  "no_destinations = \<lparr>external_id_custom_slugs_dict = (\<lambda>m. None), external_id_dictionary = []\<rparr>"

text \<open>One changed file on the Quorum SFTP server, which loads and converts, and whose
  delivery to Quorum returns False.\<close>

definition failing_delivery :: sftp_env where
  "failing_delivery =
     \<lparr>server = quorum_sftp, credentials_valid = True,
      found_files = [(''/tmp/contacts.csv'', True)],
      load_and_convert = (\<lambda>f. None),
      send_df_to_quorum = (\<lambda>f. Inr (PBool False)),
      force = False, dry_run = False\<rparr>"

section \<open>The batch upsert stops at a fault\<close>

lemma record_result_quorum_id: "o_quorum_id (record_result m (q, r)) = q"
  by (simp add: record_result_def failed_def split: upsert_result.splits option.splits sum.splits)

lemma output_results_length:
  "length (output_results m qs rs) = min (length qs) (length rs)"
  by (simp add: output_results_def)

lemma output_results_quorum_ids:
  "map o_quorum_id (output_results m qs rs) = take (length rs) qs"
proof -
  have "o_quorum_id (record_result m x) = fst x" for x
    by (cases x) (simp add: record_result_quorum_id)
  then have "map o_quorum_id (output_results m qs rs) = map fst (zip qs rs)"
    by (simp add: output_results_def comp_def)
  also have "\<dots> = take (length rs) qs"
    by (simp add: map_fst_zip_take min_def)
  finally show ?thesis .
qed

lemma send_loop_length: "send_loop sf m mo rs st = (es, w') \<Longrightarrow> length es = length rs"
proof (induction rs arbitrary: st es w')
  case Nil
  then show ?case by simp
next
  case (Cons r rs)
  obtain entry w1 o1 where one: "send_one sf m mo r st = (entry, w1, o1)"
    by (cases "send_one sf m mo r st") auto
  obtain es1 w2 where rest: "send_loop sf m mo rs (w1, o1) = (es1, w2)"
    by (cases "send_loop sf m mo rs (w1, o1)") auto
  from Cons.prems one rest have "es = entry # es1" by simp
  with Cons.IH [OF rest] show ?case by simp
qed

lemma run_upsert_chunk_Inl:
  assumes "run_upsert_chunk sf w m c mo = (Inl e, w2)"
  shows "m \<noteq> ''ContentNote'' \<and> bulk_upsert sf (length (calls w)) = Inl e
     \<and> w2 = do_call w (BulkUpsert m (map (dict_pop bookkeeping_key) c) mo)"
  using assms
  by (auto simp: run_upsert_chunk_def submit_chunk_def upsert_bulk_wrapper_def Let_def
      split: if_splits prod.splits sum.splits)

lemma run_upsert_chunk_bulk:
  "m \<noteq> ''ContentNote'' \<Longrightarrow> bulk_upsert sf (length (calls w)) = Inl e \<Longrightarrow>
   run_upsert_chunk sf w m c mo = (Inl e, do_call w (BulkUpsert m (map (dict_pop bookkeeping_key) c) mo))"
  by (simp add: run_upsert_chunk_def submit_chunk_def upsert_bulk_wrapper_def Let_def)

lemma run_upsert_chunk_bulk_ok:
  "m \<noteq> ''ContentNote'' \<Longrightarrow> bulk_upsert sf (length (calls w)) = Inr rs \<Longrightarrow>
   \<exists>w'. run_upsert_chunk sf w m c mo = (Inr (output_results m (quorum_ids c) rs), w')
     \<and> calls w' = calls w @ [BulkUpsert m (map (dict_pop bookkeeping_key) c) mo]"
  by (simp add: run_upsert_chunk_def submit_chunk_def upsert_bulk_wrapper_def Let_def do_call_def emit_def)

lemma upt_Suc_shift: "map f [0..<Suc k] = f 0 # map (\<lambda>j. f (Suc j)) [0..<k]"
proof -
  have "[0..<Suc k] = 0 # map Suc [0..<k]"
    by (simp add: upt_conv_Cons map_Suc_upt del: upt_Suc)
  then show ?thesis by (simp add: comp_def del: upt_Suc)
qed

lemma upsert_loop_fault:
  assumes m: "m \<noteq> ''ContentNote''"
  shows "i < length cs \<Longrightarrow>
    (\<forall>j<i. bulk_upsert sf (length (calls w) + j) = Inr (rs j)) \<Longrightarrow>
    bulk_upsert sf (length (calls w) + i) = Inl e \<Longrightarrow>
    \<exists>w'. upsert_loop sf m mo cs w acc =
            (Inl (e, acc @ concat (map (\<lambda>j. output_results m (quorum_ids (cs ! j)) (rs j)) [0..<i])), w')
        \<and> calls w' = calls w @ map (\<lambda>j. BulkUpsert m (map (dict_pop bookkeeping_key) (cs ! j)) mo) [0..<Suc i]"
proof (induction cs arbitrary: i w acc rs)
  case Nil
  then show ?case by simp
next
  case (Cons c cs)
  show ?case
  proof (cases i)
    case 0
    with Cons.prems have "bulk_upsert sf (length (calls w)) = Inl e" by simp
    from run_upsert_chunk_bulk [OF m this, of c mo] 0 show ?thesis
      by (simp add: do_call_def)
  next
    case (Suc k)
    with Cons.prems have r0: "bulk_upsert sf (length (calls w)) = Inr (rs 0)"
      by (metis add.right_neutral zero_less_Suc)
    from run_upsert_chunk_bulk_ok [OF m r0, of c mo] obtain w1 where
      w1: "run_upsert_chunk sf w m c mo = (Inr (output_results m (quorum_ids c) (rs 0)), w1)"
      and c1: "calls w1 = calls w @ [BulkUpsert m (map (dict_pop bookkeeping_key) c) mo]"
      by blast
    have k: "k < length cs" using Cons.prems(1) Suc by simp
    have a: "\<forall>j<k. bulk_upsert sf (length (calls w1) + j) = Inr (rs (Suc j))"
    proof (intro allI impI)
      fix j assume "j < k"
      then have "Suc j < i" using Suc by simp
      with Cons.prems(2) have "bulk_upsert sf (length (calls w) + Suc j) = Inr (rs (Suc j))"
        by blast
      then show "bulk_upsert sf (length (calls w1) + j) = Inr (rs (Suc j))"
        using c1 by simp
    qed
    have b: "bulk_upsert sf (length (calls w1) + k) = Inl e"
      using Cons.prems(3) Suc c1 by simp
    from Cons.IH [OF k a b, of "acc @ output_results m (quorum_ids c) (rs 0)"]
    obtain w' where
      l: "upsert_loop sf m mo cs w1 (acc @ output_results m (quorum_ids c) (rs 0)) =
            (Inl (e, (acc @ output_results m (quorum_ids c) (rs 0)) @
               concat (map (\<lambda>j. output_results m (quorum_ids (cs ! j)) (rs (Suc j))) [0..<k])), w')"
      and c': "calls w' = calls w1 @ map (\<lambda>j. BulkUpsert m (map (dict_pop bookkeeping_key) (cs ! j)) mo) [0..<Suc k]"
      by blast
    have "upsert_loop sf m mo (c # cs) w acc =
            (Inl (e, acc @ concat (map (\<lambda>j. output_results m (quorum_ids ((c # cs) ! j)) (rs j)) [0..<Suc k])), w')"
      unfolding upt_Suc_shift [of _ k] using w1 l by simp
    moreover have "calls w' = calls w @ map (\<lambda>j. BulkUpsert m (map (dict_pop bookkeeping_key) ((c # cs) ! j)) mo) [0..<Suc (Suc k)]"
      unfolding upt_Suc_shift [of _ "Suc k"] using c' c1 by simp
    ultimately show ?thesis using Suc by blast
  qed
qed

lemma upsert_loop_no_raise:
  assumes "m \<noteq> ''ContentNote'' \<longrightarrow> (\<forall>k. \<exists>rs. bulk_upsert sf k = Inr rs)"
  shows "\<exists>t w'. upsert_loop sf m mo cs w acc = (Inr t, w')"
proof (induction cs arbitrary: w acc)
  case Nil
  then show ?case by simp
next
  case (Cons c cs)
  obtain res w1 where r: "run_upsert_chunk sf w m c mo = (res, w1)"
    by (cases "run_upsert_chunk sf w m c mo") auto
  show ?case
  proof (cases res)
    case (Inl e)
    with r run_upsert_chunk_Inl [of sf w m c mo e w1]
    have "m \<noteq> ''ContentNote''" and "bulk_upsert sf (length (calls w)) = Inl e" by simp_all
    moreover from this(1) assms obtain rs where "bulk_upsert sf (length (calls w)) = Inr rs"
      by blast
    ultimately show ?thesis by simp
  next
    case (Inr out)
    with r Cons.IH [of w1 "acc @ out"] show ?thesis by simp
  qed
qed

lemma concat_chunked_list: "0 < n \<Longrightarrow> concat (chunked_list xs n) = xs"
proof (induction xs n rule: chunked_list.induct)
  case (1 xs n)
  show ?case
  proof (cases "xs = []")
    case True
    then show ?thesis by (simp add: chunked_list.simps [of "[]" n])
  next
    case False
    with 1 show ?thesis by (simp add: chunked_list.simps [of xs n])
  qed
qed

lemma chunked_list_length: "c \<in> set (chunked_list xs n) \<Longrightarrow> length c \<le> n \<and> c \<noteq> []"
proof (induction xs n arbitrary: c rule: chunked_list.induct)
  case (1 xs n)
  show ?case
  proof (cases "n = 0 \<or> xs = []")
    case True
    with 1(2) show ?thesis by (simp add: chunked_list.simps [of xs n])
  next
    case False
    with 1(2) have "c = take n xs \<or> c \<in> set (chunked_list (drop n xs) n)"
      by (simp add: chunked_list.simps [of xs n])
    with 1(1) False show ?thesis by auto
  qed
qed

text \<open>
  Claim C1, as the code has it. Take a batch size above zero and a model that is upserted
  in bulk. If the submissions of the chunks before chunk \<open>i\<close> return and the submission
  of chunk \<open>i\<close> raises \<open>e\<close>, then \<open>run_upsert_to_sf\<close> has called the client for the
  chunks up to \<open>i\<close> and for no later one; when \<open>e\<close> is a malformed request or a
  connection error it returns False with exactly the outcome entries of the chunks before
  \<open>i\<close>, and any other exception leaves the function. If no submission raises anything,
  it returns True.
\<close>

theorem run_upsert_to_sf_fault_and_success:
  assumes n: "0 < max_batch_size"
  shows
  "(salesforce_model \<noteq> ''ContentNote'' \<and> i < length (chunked_list send_df max_batch_size) \<and>
    (\<forall>j<i. bulk_upsert sf (length (calls w) + j) = Inr (rs j)) \<and>
    bulk_upsert sf (length (calls w) + i) = Inl e
    \<longrightarrow>
      fst (run_upsert_to_sf sf w salesforce_model send_df max_batch_size match_on) =
        (if e = SalesforceMalformedRequest \<or> e = ConnectionError
         then Inr (False,
                concat (map (\<lambda>j. output_results salesforce_model
                                     (quorum_ids (chunked_list send_df max_batch_size ! j)) (rs j))
                          [0..<i]))
         else Inl e)
      \<and> calls (snd (run_upsert_to_sf sf w salesforce_model send_df max_batch_size match_on)) =
          calls w @ map (\<lambda>j. BulkUpsert salesforce_model
                                (map (dict_pop bookkeeping_key)
                                   (chunked_list send_df max_batch_size ! j))
                                (match_on_or_id match_on))
                      [0..<Suc i])
   \<and> ((salesforce_model \<noteq> ''ContentNote'' \<longrightarrow> (\<forall>k. \<exists>rs. bulk_upsert sf k = Inr rs))
      \<longrightarrow> (\<exists>total_results w'.
             run_upsert_to_sf sf w salesforce_model send_df max_batch_size match_on =
               (Inr (True, total_results), w')))"
proof (intro conjI impI)
  assume h: "salesforce_model \<noteq> ''ContentNote'' \<and> i < length (chunked_list send_df max_batch_size) \<and>
    (\<forall>j<i. bulk_upsert sf (length (calls w) + j) = Inr (rs j)) \<and>
    bulk_upsert sf (length (calls w) + i) = Inl e"
  then have m: "salesforce_model \<noteq> ''ContentNote''"
    and i: "i < length (chunked_list send_df max_batch_size)"
    and before: "\<forall>j<i. bulk_upsert sf (length (calls w) + j) = Inr (rs j)"
    and fault: "bulk_upsert sf (length (calls w) + i) = Inl e"
    by simp_all
  from upsert_loop_fault [OF m i before fault, of "match_on_or_id match_on" "[]"]
  obtain w' where
    l: "upsert_loop sf salesforce_model (match_on_or_id match_on)
          (chunked_list send_df max_batch_size) w [] =
          (Inl (e, concat (map (\<lambda>j. output_results salesforce_model
                                     (quorum_ids (chunked_list send_df max_batch_size ! j)) (rs j))
                          [0..<i])), w')"
    and c: "calls w' = calls w @ map (\<lambda>j. BulkUpsert salesforce_model
                                (map (dict_pop bookkeeping_key)
                                   (chunked_list send_df max_batch_size ! j))
                                (match_on_or_id match_on))
                      [0..<Suc i]"
    by auto
  show "fst (run_upsert_to_sf sf w salesforce_model send_df max_batch_size match_on) =
        (if e = SalesforceMalformedRequest \<or> e = ConnectionError
         then Inr (False,
                concat (map (\<lambda>j. output_results salesforce_model
                                     (quorum_ids (chunked_list send_df max_batch_size ! j)) (rs j))
                          [0..<i]))
         else Inl e)"
    using n l by (simp add: run_upsert_to_sf_def Let_def)
  show "calls (snd (run_upsert_to_sf sf w salesforce_model send_df max_batch_size match_on)) =
          calls w @ map (\<lambda>j. BulkUpsert salesforce_model
                                (map (dict_pop bookkeeping_key)
                                   (chunked_list send_df max_batch_size ! j))
                                (match_on_or_id match_on))
                      [0..<Suc i]"
    using n l c by (simp add: run_upsert_to_sf_def Let_def emit_def del: upt_Suc)
next
  assume "salesforce_model \<noteq> ''ContentNote'' \<longrightarrow> (\<forall>k. \<exists>rs. bulk_upsert sf k = Inr rs)"
  from upsert_loop_no_raise [OF this, of "match_on_or_id match_on"
      "chunked_list send_df max_batch_size" w "[]"]
  obtain t w' where "upsert_loop sf salesforce_model (match_on_or_id match_on)
          (chunked_list send_df max_batch_size) w [] = (Inr t, w')" by blast
  then show "\<exists>total_results w'.
             run_upsert_to_sf sf w salesforce_model send_df max_batch_size match_on =
               (Inr (True, total_results), w')"
    using n by (simp add: run_upsert_to_sf_def Let_def)
qed

text \<open>
  Claim C2, as the code has it. When the submission of a chunk returns a list of results,
  \<open>_run_upsert_chunk\<close> returns as many entries as the shorter of the chunk and that
  list, entry \<open>i\<close> carrying the Quorum id of record \<open>i\<close>; a difference of the two
  counts is logged and changes nothing else. Sent one record at a time (ContentNote),
  the list of results always has the length of the chunk.
\<close>

theorem run_upsert_chunk_outcome_count:
  assumes s: "submit_chunk sf w m chunk mo = (Inr rs, w')"
  shows "\<exists>outs w''. run_upsert_chunk sf w m chunk mo = (Inr outs, w'')
       \<and> length outs = min (length chunk) (length rs)
       \<and> map o_quorum_id outs = take (length rs) (quorum_ids chunk)
       \<and> events w'' = events w' @ (if length chunk \<noteq> length rs
                                     then [LogCountMismatch (length rs) (length chunk)] else [])
       \<and> (m = ''ContentNote'' \<longrightarrow> length rs = length chunk)"
proof -
  have cn: "m = ''ContentNote'' \<longrightarrow> length rs = length chunk"
  proof
    assume "m = ''ContentNote''"
    with s obtain es where
      "send_loop sf m mo (map (dict_pop bookkeeping_key) chunk) (w, None) = (es, w')" "rs = es"
      by (auto simp: submit_chunk_def send_records_one_at_a_time_def Let_def split: prod.splits)
    with send_loop_length [of sf m mo _ _ es w'] show "length rs = length chunk" by fastforce
  qed
  have "run_upsert_chunk sf w m chunk mo =
     (Inr (output_results m (quorum_ids chunk) rs),
      if length (quorum_ids chunk) \<noteq> length rs
      then emit w' (LogCountMismatch (length rs) (length (quorum_ids chunk))) else w')"
    using s by (simp add: run_upsert_chunk_def Let_def)
  then show ?thesis
    using cn by (simp add: output_results_length output_results_quorum_ids quorum_ids_def emit_def)
qed

lemma chunks5: "chunked_list five_contacts 2 =
   [[contact 1 ''Ames'', contact 2 ''Baker''], [contact 3 ''Cole'', contact 4 ''Diaz''], [contact 5 ''Evans'']]"
  by (simp add: chunked_list.simps five_contacts_def)

text \<open>
  Five records in chunks of two, the second submission losing the connection; and the same
  records with a client that never raises.
\<close>

theorem run_upsert_to_sf_fault_and_success_witness:
  "0 < (2::nat) \<and> ''Contact'' \<noteq> ''ContentNote'' \<and> 1 < length (chunked_list five_contacts 2)
   \<and> bulk_upsert faulty_client 0 = Inr [ok_result ''001'', ok_result ''002'']
   \<and> bulk_upsert faulty_client 1 = Inl ConnectionError
   \<and> fst (run_upsert_to_sf faulty_client empty_world ''Contact'' five_contacts 2 None) =
       Inr (False, [\<lparr>o_success = True, o_quorum_id = PInt 1, o_sf_id = PStr ''001''\<rparr>,
                    \<lparr>o_success = True, o_quorum_id = PInt 2, o_sf_id = PStr ''002''\<rparr>])
   \<and> calls (snd (run_upsert_to_sf faulty_client empty_world ''Contact'' five_contacts 2 None)) =
       [BulkUpsert ''Contact'' [[(''LastName'', PStr ''Ames'')], [(''LastName'', PStr ''Baker'')]] ''Id'',
        BulkUpsert ''Contact'' [[(''LastName'', PStr ''Cole'')], [(''LastName'', PStr ''Diaz'')]] ''Id'']
   \<and> (\<forall>k. \<exists>rs. bulk_upsert steady_client k = Inr rs)
   \<and> (\<exists>total_results w'.
         run_upsert_to_sf steady_client empty_world ''Contact'' five_contacts 2 None =
           (Inr (True, total_results), w'))"
proof -
  have n: "0 < (2::nat)" by simp
  have h: "''Contact'' \<noteq> ''ContentNote'' \<and> 1 < length (chunked_list five_contacts 2) \<and>
    (\<forall>j<1. bulk_upsert faulty_client (length (calls empty_world) + j) =
        Inr ((\<lambda>j. [ok_result ''001'', ok_result ''002'']) j)) \<and>
    bulk_upsert faulty_client (length (calls empty_world) + 1) = Inl ConnectionError"
    by (simp add: chunks5 faulty_client_def empty_world_def)
  have s: "\<forall>k. \<exists>rs. bulk_upsert steady_client k = Inr rs"
    by (simp add: steady_client_def)
  note t = run_upsert_to_sf_fault_and_success [OF n]
  from t [of "''Contact''" 1 five_contacts faulty_client empty_world
      "\<lambda>j. [ok_result ''001'', ok_result ''002'']" ConnectionError None] h
  have a: "fst (run_upsert_to_sf faulty_client empty_world ''Contact'' five_contacts 2 None) =
       Inr (False, [\<lparr>o_success = True, o_quorum_id = PInt 1, o_sf_id = PStr ''001''\<rparr>,
                    \<lparr>o_success = True, o_quorum_id = PInt 2, o_sf_id = PStr ''002''\<rparr>])"
    and b: "calls (snd (run_upsert_to_sf faulty_client empty_world ''Contact'' five_contacts 2 None)) =
       [BulkUpsert ''Contact'' [[(''LastName'', PStr ''Ames'')], [(''LastName'', PStr ''Baker'')]] ''Id'',
        BulkUpsert ''Contact'' [[(''LastName'', PStr ''Cole'')], [(''LastName'', PStr ''Diaz'')]] ''Id'']"
    by (simp_all add: chunks5 output_results_def quorum_ids_def record_result_def ok_result_def
        contact_def dict_get_def dict_pop_def bookkeeping_key_def match_on_or_id_def empty_world_def)
  from t [of "''Contact''" 0 five_contacts steady_client empty_world "\<lambda>j. []" ConnectionError None] s
  have c: "\<exists>total_results w'.
         run_upsert_to_sf steady_client empty_world ''Contact'' five_contacts 2 None =
           (Inr (True, total_results), w')"
    by simp
  from n h a b s c show ?thesis by (simp add: faulty_client_def)
qed

text \<open>
  Claim C1 as stated fails: a refused request is neither of the two faults, no such fault
  occurs on any chunk, and the function does not return True but raises. With a batch
  size of zero it raises before any chunk is submitted.
\<close>

theorem other_exception_leaves_run_upsert_to_sf:
  "bulk_upsert refusing_client 0 \<noteq> Inl SalesforceMalformedRequest
   \<and> bulk_upsert refusing_client 0 \<noteq> Inl ConnectionError
   \<and> fst (run_upsert_to_sf refusing_client empty_world ''Contact'' [contact 1 ''Ames''] 10000 None)
       = Inl SalesforceRefusedRequest
   \<and> run_upsert_to_sf steady_client empty_world ''Contact'' [contact 1 ''Ames''] 0 None
       = (Inl ZeroDivisionError, empty_world)"
  by (simp add: refusing_client_def run_upsert_to_sf_def chunked_list.simps [of _ 10000]
      run_upsert_chunk_def submit_chunk_def upsert_bulk_wrapper_def empty_world_def Let_def)

text \<open>
  Two records and a client that returns a single result.
\<close>

theorem run_upsert_chunk_outcome_count_witness:
  "submit_chunk short_client empty_world ''Contact'' [contact 1 ''Ames'', contact 2 ''Baker''] ''Id''
     = (Inr [ok_result ''001''],
        \<lparr>calls = [BulkUpsert ''Contact'' [[(''LastName'', PStr ''Ames'')], [(''LastName'', PStr ''Baker'')]] ''Id''],
         events = []\<rparr>)
   \<and> (\<exists>outs w''. run_upsert_chunk short_client empty_world ''Contact''
           [contact 1 ''Ames'', contact 2 ''Baker''] ''Id'' = (Inr outs, w'')
        \<and> length outs = 1 \<and> map o_quorum_id outs = [PInt 1]
        \<and> events w'' = [LogCountMismatch 1 2])"
proof -
  have s: "submit_chunk short_client empty_world ''Contact'' [contact 1 ''Ames'', contact 2 ''Baker''] ''Id''
     = (Inr [ok_result ''001''],
        \<lparr>calls = [BulkUpsert ''Contact'' [[(''LastName'', PStr ''Ames'')], [(''LastName'', PStr ''Baker'')]] ''Id''],
         events = []\<rparr>)"
    by (simp add: submit_chunk_def upsert_bulk_wrapper_def short_client_def empty_world_def
        do_call_def contact_def dict_pop_def bookkeeping_key_def)
  from run_upsert_chunk_outcome_count [OF s] obtain outs w'' where
    "run_upsert_chunk short_client empty_world ''Contact''
           [contact 1 ''Ames'', contact 2 ''Baker''] ''Id'' = (Inr outs, w'')"
    "length outs = 1" "map o_quorum_id outs = [PInt 1]" "events w'' = [LogCountMismatch 1 2]"
    by (auto simp: quorum_ids_def contact_def dict_get_def bookkeeping_key_def)
  with s show ?thesis by simp
qed

text \<open>
  Claim C2 as stated fails: for a chunk of two records and a response of one item, one
  entry is returned.
\<close>

theorem fewer_results_than_records:
  "fst (run_upsert_chunk short_client empty_world ''Contact''
          [contact 1 ''Ames'', contact 2 ''Baker''] ''Id'')
     = Inr [\<lparr>o_success = True, o_quorum_id = PInt 1, o_sf_id = PStr ''001''\<rparr>]
   \<and> length [contact 1 ''Ames'', contact 2 ''Baker''] = 2"
  by (simp add: run_upsert_chunk_def submit_chunk_def upsert_bulk_wrapper_def short_client_def
      empty_world_def output_results_def quorum_ids_def record_result_def ok_result_def
      contact_def dict_get_def bookkeeping_key_def Let_def)

section \<open>Where clauses: length and order\<close>




lemma predicate_nonempty: "predicate fm r \<noteq> []"
  by (simp add: predicate_def)


lemma predicates_of_nonempty: "p \<in> set (predicates_of fm rs) \<Longrightarrow> p \<noteq> []"
  by (auto simp: predicates_of_def predicate_nonempty)













lemma sorted_map_fst: "sorted (xs :: (string \<times> string) list) \<Longrightarrow> sorted (map fst xs)"
  by (induction xs) (auto simp: less_eq_prod_def less_le)

lemma sort_same_items:
  "mset (fm :: (string \<times> string) list) = mset fm' \<Longrightarrow> sort fm = sort fm'"
  by (metis properties_for_sort sorted_sort mset_sort)

lemma build_same_items:
  assumes m: "mset fm = mset fm'"
  shows "sf_build_where_clauses_max mx sv fm = sf_build_where_clauses_max mx sv fm'"
proof -
  have w: "where_items fm = where_items fm'"
    by (rule ext) (simp add: where_items_def predicate_terms_def sort_same_items [OF m])
  then have p: "predicate fm = predicate fm'"
    by (intro ext) (simp add: predicate_def)
  have "build_loop mx fm sv cur acc = build_loop mx fm' sv cur acc" for cur acc
    by (induction sv arbitrary: cur acc) (simp_all add: w p Let_def)
  then show ?thesis by (simp add: sf_build_where_clauses_max_def)
qed

lemma predicate_terms_keys:
  assumes d: "distinct (map fst fm)"
  shows "map fst (predicate_terms fm r)
           = sorted_list_of_set {k \<in> fst ` set fm. dict_get r k \<noteq> PNone}"
proof (rule sorted_distinct_set_unique)
  show "sorted (map fst (predicate_terms fm r))"
    unfolding predicate_terms_def by (rule sorted_filter) (rule sorted_map_fst, simp)
  have "mset (map fst (sort fm)) = mset (map fst fm)" by simp
  with d have "distinct (map fst (sort fm))" by (metis mset_eq_imp_distinct_iff)
  then show "distinct (map fst (predicate_terms fm r))"
    unfolding predicate_terms_def by (rule distinct_map_filter)
  show "sorted (sorted_list_of_set {k \<in> fst ` set fm. dict_get r k \<noteq> PNone})" by simp
  show "distinct (sorted_list_of_set {k \<in> fst ` set fm. dict_get r k \<noteq> PNone})" by simp
  show "set (map fst (predicate_terms fm r))
          = set (sorted_list_of_set {k \<in> fst ` set fm. dict_get r k \<noteq> PNone})"
    by (auto simp: predicate_terms_def image_iff)
qed

text \<open>
  Claim C4, as the code has it. When no key is listed twice, the terms of a predicate are
  those of the keys of the field mapping (the record's own field names, not the Salesforce
  names) for which the record has a value, in ascending order of the key; the predicate is
  these terms joined with \<open>AND\<close> in brackets; and the clauses built do not depend on
  the order in which the mapping lists its items.
\<close>

theorem where_items_in_key_order:
  "(distinct (map fst field_mapping) \<longrightarrow>
      where_items field_mapping r =
        map (\<lambda>k. where_item (the (map_of field_mapping k)) (dict_get r k))
          (sorted_list_of_set {k \<in> fst ` set field_mapping. dict_get r k \<noteq> PNone}))
   \<and> predicate field_mapping r = ''('' @ join '' AND '' (where_items field_mapping r) @ '')''
   \<and> (mset field_mapping = mset field_mapping' \<longrightarrow>
        sf_build_where_clauses search_values field_mapping =
        sf_build_where_clauses search_values field_mapping')"
proof (intro conjI impI)
  assume d: "distinct (map fst field_mapping)"
  have "(case x of (value_key, sf_name) \<Rightarrow> where_item sf_name (dict_get r value_key))
          = where_item (the (map_of field_mapping (fst x))) (dict_get r (fst x))"
    if "x \<in> set (predicate_terms field_mapping r)" for x
  proof -
    obtain k n where x: "x = (k, n)" by (cases x)
    with that have "(k, n) \<in> set field_mapping" by (simp add: predicate_terms_def)
    with d have "map_of field_mapping k = Some n" by simp
    with x show ?thesis by simp
  qed
  then have "where_items field_mapping r =
      map (\<lambda>k. where_item (the (map_of field_mapping k)) (dict_get r k))
        (map fst (predicate_terms field_mapping r))"
    by (simp add: where_items_def comp_def cong: map_cong)
  with predicate_terms_keys [OF d, of r]
  show "where_items field_mapping r =
        map (\<lambda>k. where_item (the (map_of field_mapping k)) (dict_get r k))
          (sorted_list_of_set {k \<in> fst ` set field_mapping. dict_get r k \<noteq> PNone})"
    by simp
next
  show "predicate field_mapping r = ''('' @ join '' AND '' (where_items field_mapping r) @ '')''"
    by (simp add: predicate_def)
next
  assume m: "mset field_mapping = mset field_mapping'"
  show "sf_build_where_clauses search_values field_mapping =
        sf_build_where_clauses search_values field_mapping'"
    unfolding sf_build_where_clauses_def by (rule build_same_items [OF m])
qed

text \<open>A mapping of two fields, listed in both orders.\<close>

theorem where_items_in_key_order_witness:
  "distinct (map fst [(''b'', ''City''), (''a'', ''Zip'')])
   \<and> where_items [(''b'', ''City''), (''a'', ''Zip'')] [(''a'', PStr ''1''), (''b'', PStr ''x'')]
       = map (\<lambda>k. where_item (the (map_of [(''b'', ''City''), (''a'', ''Zip'')] k))
                    (dict_get [(''a'', PStr ''1''), (''b'', PStr ''x'')] k))
           (sorted_list_of_set {k \<in> fst ` set [(''b'', ''City''), (''a'', ''Zip'')].
                                  dict_get [(''a'', PStr ''1''), (''b'', PStr ''x'')] k \<noteq> PNone})
   \<and> where_items [(''b'', ''City''), (''a'', ''Zip'')] [(''a'', PStr ''1''), (''b'', PStr ''x'')]
       = [''Zip = '' @ [CHR 0x27] @ ''1'' @ [CHR 0x27], ''City = '' @ [CHR 0x27] @ ''x'' @ [CHR 0x27]]
   \<and> mset [(''a'', ''Zip''), (''b'', ''City'')] = mset [(''b'', ''City''), (''a'', ''Zip'')]
   \<and> sf_build_where_clauses [[(''a'', PStr ''1''), (''b'', PStr ''x'')]] [(''a'', ''Zip''), (''b'', ''City'')]
     = sf_build_where_clauses [[(''a'', PStr ''1''), (''b'', PStr ''x'')]] [(''b'', ''City''), (''a'', ''Zip'')]"
proof -
  have d: "distinct (map fst [(''b'', ''City''), (''a'', ''Zip'')])" by simp
  have m: "mset [(''a'', ''Zip''), (''b'', ''City'')] = mset [(''b'', ''City''), (''a'', ''Zip'')]"
    by simp
  from where_items_in_key_order
    [of "[(''b'', ''City''), (''a'', ''Zip'')]" "[(''a'', PStr ''1''), (''b'', PStr ''x'')]"] d
  have a: "where_items [(''b'', ''City''), (''a'', ''Zip'')] [(''a'', PStr ''1''), (''b'', PStr ''x'')]
       = map (\<lambda>k. where_item (the (map_of [(''b'', ''City''), (''a'', ''Zip'')] k))
                    (dict_get [(''a'', PStr ''1''), (''b'', PStr ''x'')] k))
           (sorted_list_of_set {k \<in> fst ` set [(''b'', ''City''), (''a'', ''Zip'')].
                                  dict_get [(''a'', PStr ''1''), (''b'', PStr ''x'')] k \<noteq> PNone})"
    by blast
  have b: "where_items [(''b'', ''City''), (''a'', ''Zip'')] [(''a'', PStr ''1''), (''b'', PStr ''x'')]
       = [''Zip = '' @ [CHR 0x27] @ ''1'' @ [CHR 0x27], ''City = '' @ [CHR 0x27] @ ''x'' @ [CHR 0x27]]"
    by code_simp
  from where_items_in_key_order
    [of "[(''a'', ''Zip''), (''b'', ''City'')]" "[]" "[(''b'', ''City''), (''a'', ''Zip'')]"
        "[[(''a'', PStr ''1''), (''b'', PStr ''x'')]]"] m
  have c: "sf_build_where_clauses [[(''a'', PStr ''1''), (''b'', PStr ''x'')]] [(''a'', ''Zip''), (''b'', ''City'')]
     = sf_build_where_clauses [[(''a'', PStr ''1''), (''b'', PStr ''x'')]] [(''b'', ''City''), (''a'', ''Zip'')]"
    by blast
  from d a b m c show ?thesis by (intro conjI)
qed

text \<open>
  Claim C4 as stated fails: the terms come in the order of the keys \<open>a\<close>, \<open>b\<close>, which
  puts the Salesforce field \<open>Zip\<close> before \<open>City\<close>.
\<close>

theorem terms_not_sorted_by_salesforce_name:
  "map snd (predicate_terms [(''a'', ''Zip''), (''b'', ''City'')] [(''a'', PStr ''1''), (''b'', PStr ''x'')])
     = [''Zip'', ''City'']
   \<and> \<not> sorted [''Zip'', ''City'']
   \<and> predicate [(''a'', ''Zip''), (''b'', ''City'')] [(''a'', PStr ''1''), (''b'', PStr ''x'')]
     = ''(Zip = '' @ [CHR 0x27] @ ''1'' @ [CHR 0x27] @ '' AND City = '' @ [CHR 0x27] @ ''x'' @ [CHR 0x27] @ '')''"
proof (intro conjI)
  show "map snd (predicate_terms [(''a'', ''Zip''), (''b'', ''City'')]
                   [(''a'', PStr ''1''), (''b'', PStr ''x'')]) = [''Zip'', ''City'']"
    by code_simp
  show "\<not> sorted [''Zip'', ''City'']"
    by simp
  show "predicate [(''a'', ''Zip''), (''b'', ''City'')] [(''a'', PStr ''1''), (''b'', PStr ''x'')]
     = ''(Zip = '' @ [CHR 0x27] @ ''1'' @ [CHR 0x27] @ '' AND City = '' @ [CHR 0x27] @ ''x'' @ [CHR 0x27] @ '')''"
    by code_simp
qed

section \<open>Normalisation: identifiers, unknown columns, empty values\<close>

lemma empty_to_none_truthy: "truthy v \<Longrightarrow> empty_to_none v = v"
  by (cases v) (auto simp: empty_to_none_def)

lemma length_series_map: "length (series_map f xs) = length xs"
  by (simp add: series_map_def infer_dtype_def)

lemma series_map_nth:
  "i < length xs \<Longrightarrow> series_map f xs ! i = f (xs ! i) \<or> series_map f xs ! i = to_float (f (xs ! i))"
  by (simp add: series_map_def infer_dtype_def)

lemma series_map_unchanged: "\<not> becomes_float (map f xs) \<Longrightarrow> series_map f xs = map f xs"
  by (simp add: series_map_def infer_dtype_def)

lemma text_never_becomes_float:
  assumes "PStr s \<in> set column" "s \<noteq> []"
  shows "\<not> becomes_float (map empty_to_none column)"
proof -
  from assms have "PStr s \<in> set (map empty_to_none column)"
    using empty_to_none_truthy [of "PStr s"] by (metis image_eqI set_map truthy.simps(6))
  moreover have "\<not> numeric_or_null (PStr s)" by simp
  ultimately have "\<not> list_all numeric_or_null (map empty_to_none column)"
    unfolding list_all_iff by blast
  then show ?thesis by (simp add: becomes_float_def)
qed

lemma final_cell:
  assumes "x = empty_to_none v \<or> x = to_float (empty_to_none v)"
    and "y = (if truthy x then x else PNone) \<or> y = to_float (if truthy x then x else PNone)"
  shows "(\<not> truthy v \<longrightarrow> isna y) \<and> (truthy v \<longrightarrow> y = v \<or> y = to_float v)"
  using assms by (cases v) (auto simp: empty_to_none_def split: if_splits)

lemma set_unique: "set (unique xs) = set xs"
  by (simp add: unique_def)

lemma unique_Nil: "unique xs = [] \<longleftrightarrow> xs = []"
  by (metis set_unique set_empty)

lemma normalize_field_id:
  assumes "field_definitions field_name = Some fd"
    and "fd_type fd = ''id'' \<or> fd_type fd = ''reference''"
    and "\<not> list_ex is_list (filter (\<lambda>x. \<not> isna x) (series_map empty_to_none column))"
  shows "normalize_field field_definitions salesforce_model field_name column =
     Inr (series_map (\<lambda>v. if truthy v then v else PNone) (series_map empty_to_none column),
          (if unique (filter wrong_length (series_map empty_to_none column)) \<noteq> []
           then [WrongIdLength field_name
                   (unique (filter wrong_length (series_map empty_to_none column)))]
           else []),
          unique (filter wrong_length (series_map empty_to_none column)) \<noteq> []
          \<and> fd_type fd = ''id'')"
  using assms
  by (auto simp: normalize_field_def validate_field_def Let_def)

lemma normalize_field_raises:
  "normalize_field field_definitions salesforce_model field_name column = Inl e \<Longrightarrow> e = TypeError"
  by (auto simp: normalize_field_def Let_def split: option.splits if_splits)

lemma normalize_columns_field:
  "(field_name, column) \<in> set dataframe \<Longrightarrow>
   normalize_columns field_definitions salesforce_model dataframe = Inr (frame, ms, ft) \<Longrightarrow>
   \<exists>column' ms' ft'.
     normalize_field field_definitions salesforce_model field_name column = Inr (column', ms', ft')
     \<and> set ms' \<subseteq> set ms \<and> (ft' \<longrightarrow> ft)"
proof (induction dataframe arbitrary: frame ms ft)
  case Nil
  then show ?case by simp
next
  case (Cons x rest)
  obtain f c where x: "x = (f, c)" by (cases x)
  from Cons.prems(2) x obtain c' m1 t1 frame' m2 t2 where
    a: "normalize_field field_definitions salesforce_model f c = Inr (c', m1, t1)"
    and b: "normalize_columns field_definitions salesforce_model rest = Inr (frame', m2, t2)"
    and c: "ms = m1 @ m2" "ft = (t1 \<or> t2)"
    by (auto split: sum.splits prod.splits)
  show ?case
  proof (cases "(field_name, column) = x")
    case True
    with a c x show ?thesis by auto
  next
    case False
    with Cons.prems(1) have "(field_name, column) \<in> set rest" by simp
    from Cons.IH [OF this b] c show ?thesis by auto
  qed
qed

lemma normalize_columns_nth:
  "normalize_columns field_definitions salesforce_model (before @ (field_name, column) # after)
     = Inr (frame, ms, ft) \<Longrightarrow>
   \<exists>column' ms' ft'.
     normalize_field field_definitions salesforce_model field_name column = Inr (column', ms', ft')
     \<and> frame ! length before = (field_name, column')"
proof (induction before arbitrary: frame ms ft)
  case Nil
  then show ?case by (auto split: sum.splits prod.splits)
next
  case (Cons x before)
  obtain f c where x: "x = (f, c)" by (cases x)
  from Cons.prems x obtain c' m1 t1 frame' m2 t2 where
    b: "normalize_columns field_definitions salesforce_model
          (before @ (field_name, column) # after) = Inr (frame', m2, t2)"
    and c: "frame = (f, c') # frame'"
    by (auto split: sum.splits prod.splits)
  from Cons.IH [OF b] c show ?case by auto
qed

lemma normalize_sf_Inr:
  "normalize_columns field_definitions salesforce_model dataframe = Inr (frame, ms, ft) \<Longrightarrow>
   normalize_sf_field_types field_definitions dataframe salesforce_model =
     (ms, if ms \<noteq> [] \<and> ft then Inl ValueError else Inr frame)"
  by (simp add: normalize_sf_field_types_def)

lemma normalize_sf_Inl:
  "normalize_columns field_definitions salesforce_model dataframe = Inl f \<Longrightarrow>
   normalize_sf_field_types field_definitions dataframe salesforce_model =
     ([Unhashable f], Inl TypeError)"
  by (simp add: normalize_sf_field_types_def)

lemma normalize_sf_cases:
  obtains f where "normalize_columns field_definitions salesforce_model dataframe = Inl f"
      "normalize_sf_field_types field_definitions dataframe salesforce_model =
         ([Unhashable f], Inl TypeError)"
  | frame ms ft where "normalize_columns field_definitions salesforce_model dataframe = Inr (frame, ms, ft)"
      "normalize_sf_field_types field_definitions dataframe salesforce_model =
         (ms, if ms \<noteq> [] \<and> ft then Inl ValueError else Inr frame)"
proof (cases "normalize_columns field_definitions salesforce_model dataframe")
  case (Inl f)
  then show ?thesis using that(1) normalize_sf_Inl by blast
next
  case (Inr r)
  obtain frame ms ft where "r = (frame, ms, ft)" by (cases r)
  with Inr show ?thesis using that(2) normalize_sf_Inr by blast
qed

lemma normalize_field_id_result:
  assumes "field_definitions field_name = Some fd"
    and "fd_type fd = ''id'' \<or> fd_type fd = ''reference''"
    and "normalize_field field_definitions salesforce_model field_name column = Inr (column', ms', ft')"
  shows "column' = series_map (\<lambda>v. if truthy v then v else PNone) (series_map empty_to_none column)"
    and "ms' = (if unique (filter wrong_length (series_map empty_to_none column)) \<noteq> []
           then [WrongIdLength field_name
                   (unique (filter wrong_length (series_map empty_to_none column)))]
           else [])"
    and "ft' = (unique (filter wrong_length (series_map empty_to_none column)) \<noteq> []
                \<and> fd_type fd = ''id'')"
proof -
  from assms have "\<not> list_ex is_list (filter (\<lambda>x. \<not> isna x) (series_map empty_to_none column))"
    by (auto simp: normalize_field_def Let_def split: if_splits)
  from normalize_field_id [of field_definitions field_name fd column salesforce_model,
      OF assms(1,2) this] assms(3)
  show "column' = series_map (\<lambda>v. if truthy v then v else PNone) (series_map empty_to_none column)"
    and "ms' = (if unique (filter wrong_length (series_map empty_to_none column)) \<noteq> []
           then [WrongIdLength field_name
                   (unique (filter wrong_length (series_map empty_to_none column)))]
           else [])"
    and "ft' = (unique (filter wrong_length (series_map empty_to_none column)) \<noteq> []
                \<and> fd_type fd = ''id'')"
    by simp_all
qed

lemma wrong_length_kept:
  assumes "v \<in> set column" "truthy v" "length (py_unicode v) \<notin> {0, 15, 18}"
    and "\<not> becomes_float (map empty_to_none column)"
  shows "v \<in> set (unique (filter wrong_length (series_map empty_to_none column)))"
proof -
  have "wrong_length v" using assms(2,3) by (simp add: wrong_length_def)
  moreover have "v \<in> set (map empty_to_none column)"
    using assms(1,2) empty_to_none_truthy by (metis image_eqI set_map)
  ultimately show ?thesis by (simp add: set_unique series_map_unchanged [OF assms(4)])
qed

text \<open>
  Claim C7, as the code has it, for a column whose field is of type \<open>id\<close> or
  \<open>reference\<close>. Every truthy value of the column whose text is not 15 or 18
  characters long is listed in an error message of the normaliser, unless the column
  becomes a column of floats once its empty values are made None, or a column that holds
  a list has ended the run with TypeError; of a float, this is said below 10 to the
  power 12, where its text has no exponent. A column that holds a non-empty string never
  becomes a column of floats. In the DataFrame returned, every falsy value of the column,
  the empty string among them, is absent (None, or NaN in a column of floats), and every
  other value is kept, as a float in a column of floats. A reported value in a field of
  type \<open>id\<close> makes the normaliser raise; a field of type \<open>reference\<close> does not
  make the errors fatal.
\<close>

theorem id_and_reference_lengths:
  assumes fd: "field_definitions field_name = Some fd"
    and ty: "fd_type fd = ''id'' \<or> fd_type fd = ''reference''"
  shows
  "((field_name, column) \<in> set dataframe \<and> v \<in> set column \<and> truthy v
      \<and> length (py_unicode v) \<notin> {0, 15, 18} \<and> (\<forall>i. v = PFloat i \<longrightarrow> \<bar>i\<bar> < 10 ^ 12)
      \<and> \<not> becomes_float (map empty_to_none column)
      \<and> snd (normalize_sf_field_types field_definitions dataframe salesforce_model) \<noteq> Inl TypeError
    \<longrightarrow> (\<exists>vs. WrongIdLength field_name vs
                 \<in> set (fst (normalize_sf_field_types field_definitions dataframe salesforce_model))
              \<and> v \<in> set vs))
   \<and> (PStr s \<in> set column \<and> s \<noteq> [] \<longrightarrow> \<not> becomes_float (map empty_to_none column))
   \<and> (snd (normalize_sf_field_types field_definitions (before @ (field_name, column) # after)
              salesforce_model) = Inr frame
      \<longrightarrow> fst (frame ! length before) = field_name
          \<and> length (snd (frame ! length before)) = length column
          \<and> (\<forall>i<length column.
                (\<not> truthy (column ! i) \<longrightarrow> isna (snd (frame ! length before) ! i))
                \<and> (truthy (column ! i)
                     \<longrightarrow> snd (frame ! length before) ! i = column ! i
                         \<or> snd (frame ! length before) ! i = to_float (column ! i))))
   \<and> ((field_name, column) \<in> set dataframe \<and> v \<in> set column \<and> truthy v
        \<and> length (py_unicode v) \<notin> {0, 15, 18} \<and> (\<forall>i. v = PFloat i \<longrightarrow> \<bar>i\<bar> < 10 ^ 12)
        \<and> \<not> becomes_float (map empty_to_none column)
        \<and> fd_type fd = ''id''
      \<longrightarrow> (\<exists>e. snd (normalize_sf_field_types field_definitions dataframe salesforce_model) = Inl e))
   \<and> (fd_type fd = ''reference''
      \<longrightarrow> snd (normalize_sf_field_types field_definitions [(field_name, column)] salesforce_model)
            \<noteq> Inl ValueError)"
proof (intro conjI impI)
  assume h: "(field_name, column) \<in> set dataframe \<and> v \<in> set column \<and> truthy v
      \<and> length (py_unicode v) \<notin> {0, 15, 18} \<and> (\<forall>i. v = PFloat i \<longrightarrow> \<bar>i\<bar> < 10 ^ 12)
      \<and> \<not> becomes_float (map empty_to_none column)
      \<and> snd (normalize_sf_field_types field_definitions dataframe salesforce_model) \<noteq> Inl TypeError"
  show "\<exists>vs. WrongIdLength field_name vs
                 \<in> set (fst (normalize_sf_field_types field_definitions dataframe salesforce_model))
              \<and> v \<in> set vs"
  proof (cases rule: normalize_sf_cases [of field_definitions salesforce_model dataframe])
    case (1 f)
    with h show ?thesis by simp
  next
    case (2 frame' ms ft)
    from h normalize_columns_field [OF _ 2(1)] obtain column' ms' ft' where
      nf: "normalize_field field_definitions salesforce_model field_name column = Inr (column', ms', ft')"
      and sub: "set ms' \<subseteq> set ms" by blast
    let ?vs = "unique (filter wrong_length (series_map empty_to_none column))"
    have v: "v \<in> set ?vs" using h wrong_length_kept by blast
    then have "?vs \<noteq> []" by auto
    with normalize_field_id_result(2) [OF fd ty nf] have "WrongIdLength field_name ?vs \<in> set ms'"
      by simp
    with sub v 2(2) show ?thesis by auto
  qed
next
  assume "PStr s \<in> set column \<and> s \<noteq> []"
  then show "\<not> becomes_float (map empty_to_none column)"
    using text_never_becomes_float by blast
next
  assume r: "snd (normalize_sf_field_types field_definitions (before @ (field_name, column) # after)
              salesforce_model) = Inr frame"
  have "\<exists>column'. frame ! length before = (field_name, column')
      \<and> column' = series_map (\<lambda>v. if truthy v then v else PNone) (series_map empty_to_none column)"
  proof (cases rule: normalize_sf_cases
      [of field_definitions salesforce_model "before @ (field_name, column) # after"])
    case (1 f)
    with r show ?thesis by simp
  next
    case (2 frame' ms ft)
    with r have "frame' = frame" by (simp split: if_splits)
    with normalize_columns_nth [OF 2(1)] obtain column' ms' ft' where
      nf: "normalize_field field_definitions salesforce_model field_name column = Inr (column', ms', ft')"
      and n: "frame ! length before = (field_name, column')" by blast
    from normalize_field_id_result(1) [OF fd ty nf] n show ?thesis by simp
  qed
  then obtain column' where
    n: "frame ! length before = (field_name, column')"
    and c: "column' = series_map (\<lambda>v. if truthy v then v else PNone) (series_map empty_to_none column)"
    by blast
  show "fst (frame ! length before) = field_name" using n by simp
  show "length (snd (frame ! length before)) = length column"
    using n c by (simp add: length_series_map)
  show "\<forall>i<length column.
                (\<not> truthy (column ! i) \<longrightarrow> isna (snd (frame ! length before) ! i))
                \<and> (truthy (column ! i)
                     \<longrightarrow> snd (frame ! length before) ! i = column ! i
                         \<or> snd (frame ! length before) ! i = to_float (column ! i))"
  proof (intro allI impI)
    fix i assume i: "i < length column"
    let ?x = "series_map empty_to_none column ! i"
    have x: "?x = empty_to_none (column ! i) \<or> ?x = to_float (empty_to_none (column ! i))"
      using series_map_nth [OF i] .
    have "i < length (series_map empty_to_none column)" using i by (simp add: length_series_map)
    from series_map_nth [OF this, of "\<lambda>v. if truthy v then v else PNone"] c
    have y: "column' ! i = (if truthy ?x then ?x else PNone)
             \<or> column' ! i = to_float (if truthy ?x then ?x else PNone)"
      by simp
    from final_cell [OF x y] n
    show "(\<not> truthy (column ! i) \<longrightarrow> isna (snd (frame ! length before) ! i))
                \<and> (truthy (column ! i)
                     \<longrightarrow> snd (frame ! length before) ! i = column ! i
                         \<or> snd (frame ! length before) ! i = to_float (column ! i))"
      by simp
  qed
next
  assume h: "(field_name, column) \<in> set dataframe \<and> v \<in> set column \<and> truthy v
        \<and> length (py_unicode v) \<notin> {0, 15, 18} \<and> (\<forall>i. v = PFloat i \<longrightarrow> \<bar>i\<bar> < 10 ^ 12)
        \<and> \<not> becomes_float (map empty_to_none column)
        \<and> fd_type fd = ''id''"
  show "\<exists>e. snd (normalize_sf_field_types field_definitions dataframe salesforce_model) = Inl e"
  proof (cases rule: normalize_sf_cases [of field_definitions salesforce_model dataframe])
    case (1 f)
    then show ?thesis by simp
  next
    case (2 frame' ms ft)
    from h normalize_columns_field [OF _ 2(1)] obtain column' ms' ft' where
      nf: "normalize_field field_definitions salesforce_model field_name column = Inr (column', ms', ft')"
      and sub: "set ms' \<subseteq> set ms" and ft: "ft' \<longrightarrow> ft" by blast
    let ?vs = "unique (filter wrong_length (series_map empty_to_none column))"
    have "v \<in> set ?vs" using h wrong_length_kept by blast
    then have ne: "?vs \<noteq> []" by auto
    from normalize_field_id_result(2,3) [OF fd ty nf] ne h have "ms' \<noteq> []" "ft'" by simp_all
    with sub ft have "ms \<noteq> []" "ft" by auto
    with 2(2) show ?thesis by simp
  qed
next
  assume ref: "fd_type fd = ''reference''"
  show "snd (normalize_sf_field_types field_definitions [(field_name, column)] salesforce_model)
            \<noteq> Inl ValueError"
  proof (cases rule: normalize_sf_cases [of field_definitions salesforce_model "[(field_name, column)]"])
    case (1 f)
    then show ?thesis by simp
  next
    case (2 frame' ms ft)
    from normalize_columns_field [OF _ 2(1), of field_name column] obtain column' ms' ft' where
      nf: "normalize_field field_definitions salesforce_model field_name column = Inr (column', ms', ft')"
      by auto
    from normalize_field_id_result(3) [OF fd ty nf] ref have "\<not> ft'" by simp
    with nf 2(1) have "\<not> ft" by simp
    with 2(2) show ?thesis by simp
  qed
qed

text \<open>
  A reference column with a value of three characters and an empty string, and an id
  column with a value of three characters.
\<close>

theorem id_and_reference_lengths_witness:
  "contact_fields ''AccountId'' = Some \<lparr>fd_type = ''reference'', fd_length = 18, fd_picklist = None\<rparr>
   \<and> contact_fields ''Id'' = Some \<lparr>fd_type = ''id'', fd_length = 18, fd_picklist = None\<rparr>
   \<and> truthy (PStr ''abc'') \<and> length (py_unicode (PStr ''abc'')) \<notin> {0, 15, 18}
   \<and> \<not> becomes_float (map empty_to_none [PStr ''abc'', PStr []])
   \<and> \<not> becomes_float (map empty_to_none [PStr ''abc''])
   \<and> normalize_sf_field_types contact_fields [(''AccountId'', [PStr ''abc'', PStr []])] ''Contact''
       = ([WrongIdLength ''AccountId'' [PStr ''abc'']], Inr [(''AccountId'', [PStr ''abc'', PNone])])
   \<and> (\<exists>vs. WrongIdLength ''AccountId'' vs
            \<in> set (fst (normalize_sf_field_types contact_fields
                           [(''AccountId'', [PStr ''abc'', PStr []])] ''Contact''))
          \<and> PStr ''abc'' \<in> set vs)
   \<and> \<not> truthy ([PStr ''abc'', PStr []] ! 1)
   \<and> isna (snd ([(''AccountId'', [PStr ''abc'', PNone])] ! 0) ! 1)
   \<and> snd (normalize_sf_field_types contact_fields [(''AccountId'', [PStr ''abc'', PStr []])] ''Contact'')
       \<noteq> Inl ValueError
   \<and> (\<exists>e. snd (normalize_sf_field_types contact_fields [(''Id'', [PStr ''abc''])] ''Contact'') = Inl e)"
proof -
  let ?ref = "\<lparr>fd_type = ''reference'', fd_length = 18, fd_picklist = None\<rparr>"
  let ?id = "\<lparr>fd_type = ''id'', fd_length = 18, fd_picklist = None\<rparr>"
  let ?df = "[(''AccountId'', [PStr ''abc'', PStr []])]"
  have r: "contact_fields ''AccountId'' = Some ?ref" and i: "contact_fields ''Id'' = Some ?id"
    by (simp_all add: contact_fields_def)
  have tr: "fd_type ?ref = ''id'' \<or> fd_type ?ref = ''reference''"
    and ti: "fd_type ?id = ''id'' \<or> fd_type ?id = ''reference''" by simp_all
  have v: "truthy (PStr ''abc'')" "length (py_unicode (PStr ''abc'')) \<notin> {0, 15, 18}"
    "\<forall>i. PStr ''abc'' = PFloat i \<longrightarrow> \<bar>i\<bar> < 10 ^ 12" by simp_all
  have nf: "\<not> becomes_float (map empty_to_none [PStr ''abc'', PStr []])"
    "\<not> becomes_float (map empty_to_none [PStr ''abc''])"
    by (simp_all add: becomes_float_def empty_to_none_def)
  have e: "normalize_sf_field_types contact_fields ?df ''Contact''
       = ([WrongIdLength ''AccountId'' [PStr ''abc'']], Inr [(''AccountId'', [PStr ''abc'', PNone])])"
    by (simp add: normalize_sf_field_types_def normalize_field_def validate_field_def
        contact_fields_def empty_to_none_def wrong_length_def unique_def series_map_def
        infer_dtype_def becomes_float_def Let_def)
  note t = id_and_reference_lengths [of contact_fields "''AccountId''" ?ref
      "[PStr ''abc'', PStr []]" ?df "PStr ''abc''"
      "''Contact''" "''abc''" "[]" "[]" "[(''AccountId'', [PStr ''abc'', PNone])]", OF r tr]
  from t v nf e have a: "\<exists>vs. WrongIdLength ''AccountId'' vs
            \<in> set (fst (normalize_sf_field_types contact_fields ?df ''Contact''))
          \<and> PStr ''abc'' \<in> set vs" by simp
  have f: "\<not> truthy ([PStr ''abc'', PStr []] ! 1)" by simp
  from t e have "\<forall>i<length [PStr ''abc'', PStr []].
      \<not> truthy ([PStr ''abc'', PStr []] ! i)
        \<longrightarrow> isna (snd ([(''AccountId'', [PStr ''abc'', PNone])] ! length ([] :: dataframe)) ! i)"
    by simp
  with f have b: "isna (snd ([(''AccountId'', [PStr ''abc'', PNone])] ! 0) ! 1)" by simp
  from t have d: "snd (normalize_sf_field_types contact_fields ?df ''Contact'') \<noteq> Inl ValueError"
    by simp
  from id_and_reference_lengths [of contact_fields "''Id''" ?id "[PStr ''abc'']"
      "[(''Id'', [PStr ''abc''])]" "PStr ''abc''" "''Contact''" "''abc''" "[]" "[]" "[]", OF i ti] v nf
  have c: "\<exists>e. snd (normalize_sf_field_types contact_fields [(''Id'', [PStr ''abc''])] ''Contact'') = Inl e"
    by simp
  from r i v(1,2) nf e a f b d c show ?thesis by (intro conjI)
qed

text \<open>
  Claim C7 as stated fails: the number 0 in an id column is not absent and its text has
  one character, yet no error is reported and the value is made None.
\<close>

theorem zero_id_not_reported:
  "\<not> isna (PInt 0) \<and> length (py_unicode (PInt 0)) = 1
   \<and> normalize_sf_field_types contact_fields [(''Id'', [PInt 0])] ''Contact''
       = ([], Inr [(''Id'', [PNone])])"
  by (simp add: normalize_sf_field_types_def normalize_field_def validate_field_def
      contact_fields_def empty_to_none_def wrong_length_def unique_def Let_def show_int_def
      digits.simps series_map_def infer_dtype_def becomes_float_def)

text \<open>
  A column of numbers with a falsy cell comes back as a column of floats, and an empty
  string beside a number in a boolean column is reported as NaN.
\<close>

lemma numeric_id_column_becomes_float:
  "normalize_sf_field_types contact_fields [(''Id'', [PInt 0, PInt 123456789012345])] ''Contact''
     = ([], Inr [(''Id'', [PNaN, PFloat 123456789012345])])"
proof -
  have "length (py_unicode (PInt 123456789012345)) = 15"
    by (simp add: show_int_def digits.simps)
  then show ?thesis
    by (simp add: normalize_sf_field_types_def normalize_field_def validate_field_def
        contact_fields_def empty_to_none_def wrong_length_def unique_def Let_def
        series_map_def infer_dtype_def becomes_float_def del: py_unicode.simps)
qed

lemma empty_beside_number_reported_as_nan:
  "normalize_sf_field_types contact_fields [(''Active__c'', [PStr [], PInt 1])] ''Contact''
     = ([NonBool ''Active__c'' [PNaN]], Inr [(''Active__c'', [PNaN, PFloat 1])])"
  by (simp add: normalize_sf_field_types_def normalize_field_def validate_field_def
      contact_fields_def empty_to_none_def not_bool_value_def unique_def Let_def
      series_map_def infer_dtype_def becomes_float_def)

lemma dict_pop_keys: "fst ` set (dict_pop k r) \<subseteq> fst ` set r"
  by (auto simp: dict_pop_def)

lemma dict_pop_removes: "k \<notin> fst ` set (dict_pop k r)"
  by (auto simp: dict_pop_def)

lemma send_one_calls:
  assumes "send_one sf m mo r (w, oc) = (entry, w', oc')"
  shows "\<exists>new. calls w' = calls w @ new
           \<and> (\<forall>c\<in>set new. \<forall>r'\<in>set (call_records c). fst ` set r' \<subseteq> fst ` set r)"
proof -
  have k1: "fst ` set (dict_pop ''Id'' r) \<subseteq> fst ` set r" by (rule dict_pop_keys)
  have k2: "fst ` set (dict_pop mo (dict_pop ''Id'' r)) \<subseteq> fst ` set r"
    using dict_pop_keys [of mo "dict_pop ''Id'' r"] k1 by blast
  define r2 where "r2 = (if mo \<noteq> ''Id'' then dict_pop mo (dict_pop ''Id'' r) else dict_pop ''Id'' r)"
  have k: "fst ` set r2 \<subseteq> fst ` set r" using k1 k2 by (simp add: r2_def)
  from assms have "w' = w \<or> (\<exists>p. w' = do_call w (Update m p r2)) \<or> w' = do_call w (Create r2)"
    unfolding send_one_def r2_def
    by (auto simp: Let_def split: option.splits if_splits sum.splits)
  then show ?thesis
  proof (elim disjE exE)
    assume "w' = w"
    then show ?thesis by simp
  next
    fix p assume "w' = do_call w (Update m p r2)"
    then have "calls w' = calls w @ [Update m p r2]" by (simp add: do_call_def)
    with k show ?thesis by simp
  next
    assume "w' = do_call w (Create r2)"
    then have "calls w' = calls w @ [Create r2]" by (simp add: do_call_def)
    with k show ?thesis by simp
  qed
qed

lemma send_loop_calls:
  "send_loop sf m mo rs (w, oc) = (es, w') \<Longrightarrow>
   \<exists>new. calls w' = calls w @ new
     \<and> (\<forall>c\<in>set new. \<forall>r'\<in>set (call_records c). \<exists>r\<in>set rs. fst ` set r' \<subseteq> fst ` set r)"
proof (induction rs arbitrary: w oc es w')
  case Nil
  then show ?case by simp
next
  case (Cons r rs)
  obtain entry w1 o1 where one: "send_one sf m mo r (w, oc) = (entry, w1, o1)"
    by (cases "send_one sf m mo r (w, oc)") auto
  obtain es1 w2 where rest: "send_loop sf m mo rs (w1, o1) = (es1, w2)"
    by (cases "send_loop sf m mo rs (w1, o1)") auto
  from Cons.prems one rest have w2: "w' = w2" by simp
  from send_one_calls [OF one] obtain n1 where
    n1: "calls w1 = calls w @ n1"
        "\<forall>c\<in>set n1. \<forall>r'\<in>set (call_records c). fst ` set r' \<subseteq> fst ` set r" by blast
  from Cons.IH [OF rest] obtain n2 where
    n2: "calls w2 = calls w1 @ n2"
        "\<forall>c\<in>set n2. \<forall>r'\<in>set (call_records c). \<exists>r\<in>set rs. fst ` set r' \<subseteq> fst ` set r" by blast
  have "calls w' = calls w @ (n1 @ n2)" using w2 n1(1) n2(1) by simp
  moreover have "\<forall>c\<in>set (n1 @ n2). \<forall>r'\<in>set (call_records c).
      \<exists>r0\<in>set (r # rs). fst ` set r' \<subseteq> fst ` set r0"
  proof (intro ballI)
    fix c r' assume c: "c \<in> set (n1 @ n2)" and r': "r' \<in> set (call_records c)"
    from c consider "c \<in> set n1" | "c \<in> set n2" by auto
    then show "\<exists>r0\<in>set (r # rs). fst ` set r' \<subseteq> fst ` set r0"
    proof cases
      case 1
      with n1(2) r' have "fst ` set r' \<subseteq> fst ` set r" by blast
      then show ?thesis by (intro bexI [of _ r]) simp_all
    next
      case 2
      with n2(2) r' obtain r0 where "r0 \<in> set rs" "fst ` set r' \<subseteq> fst ` set r0" by blast
      then show ?thesis by (intro bexI [of _ r0]) simp_all
    qed
  qed
  ultimately show ?case by blast
qed

lemma run_upsert_chunk_strips:
  "\<exists>new. calls (snd (run_upsert_chunk sf w m chunk mo)) = calls w @ new
     \<and> (\<forall>c\<in>set new. \<forall>r\<in>set (call_records c). bookkeeping_key \<notin> fst ` set r)"
proof (cases "m = ''ContentNote''")
  case True
  obtain es w' where l: "send_loop sf m mo (map (dict_pop bookkeeping_key) chunk) (w, None) = (es, w')"
    by (cases "send_loop sf m mo (map (dict_pop bookkeeping_key) chunk) (w, None)") auto
  from send_loop_calls [OF l] obtain new where
    n: "calls w' = calls w @ new"
       "\<forall>c\<in>set new. \<forall>r'\<in>set (call_records c).
          \<exists>r\<in>set (map (dict_pop bookkeeping_key) chunk). fst ` set r' \<subseteq> fst ` set r" by blast
  have "\<forall>c\<in>set new. \<forall>r\<in>set (call_records c). bookkeeping_key \<notin> fst ` set r"
  proof (intro ballI)
    fix c r' assume "c \<in> set new" "r' \<in> set (call_records c)"
    with n(2) obtain r0 where
      "r0 \<in> set (map (dict_pop bookkeeping_key) chunk)" and s0: "fst ` set r' \<subseteq> fst ` set r0"
      by blast
    then obtain r where "r \<in> set chunk" "r0 = dict_pop bookkeeping_key r" by auto
    with s0 have "fst ` set r' \<subseteq> fst ` set (dict_pop bookkeeping_key r)" by simp
    with dict_pop_removes [of bookkeeping_key r] show "bookkeeping_key \<notin> fst ` set r'" by blast
  qed
  moreover have "calls (snd (run_upsert_chunk sf w m chunk mo)) = calls w'"
    using True l
    by (simp add: run_upsert_chunk_def submit_chunk_def send_records_one_at_a_time_def Let_def
        emit_def)
  ultimately show ?thesis using n(1) by auto
next
  case False
  have "calls (snd (run_upsert_chunk sf w m chunk mo))
          = calls w @ [BulkUpsert m (map (dict_pop bookkeeping_key) chunk) mo]"
    using False
    by (simp add: run_upsert_chunk_def submit_chunk_def upsert_bulk_wrapper_def Let_def emit_def
        do_call_def split: sum.splits)
  moreover have "\<forall>r\<in>set (map (dict_pop bookkeeping_key) chunk). bookkeeping_key \<notin> fst ` set r"
    using dict_pop_removes by auto
  ultimately show ?thesis by auto
qed

text \<open>
  Claim C8. A column that has no field definition and is not the bookkeeping key makes
  the normaliser raise. The bookkeeping key without a field definition is skipped: it
  adds no message, is not fatal and keeps its values. Every record that
  \<open>_run_upsert_chunk\<close> hands to the client is without the bookkeeping key.
\<close>

theorem unknown_column_is_fatal:
  "((field_name, column) \<in> set dataframe \<and> field_definitions field_name = None
      \<and> field_name \<noteq> bookkeeping_key
    \<longrightarrow> snd (normalize_sf_field_types field_definitions dataframe salesforce_model) = Inl TypeError
        \<or> snd (normalize_sf_field_types field_definitions dataframe salesforce_model) = Inl ValueError
          \<and> InvalidColumn field_name salesforce_model
              \<in> set (fst (normalize_sf_field_types field_definitions dataframe salesforce_model)))
   \<and> (field_definitions bookkeeping_key = None
      \<longrightarrow> normalize_field field_definitions salesforce_model bookkeeping_key column
            = Inr (column, [], False)
          \<and> normalize_sf_field_types field_definitions [(bookkeeping_key, column)] salesforce_model
            = ([], Inr [(bookkeeping_key, column)]))
   \<and> (\<exists>new. calls (snd (run_upsert_chunk sf w salesforce_model chunk match_on)) = calls w @ new
        \<and> (\<forall>c\<in>set new. \<forall>r\<in>set (call_records c). bookkeeping_key \<notin> fst ` set r))"
proof (intro conjI impI)
  assume h: "(field_name, column) \<in> set dataframe \<and> field_definitions field_name = None
      \<and> field_name \<noteq> bookkeeping_key"
  then have nf: "normalize_field field_definitions salesforce_model field_name column
      = Inr (column, [InvalidColumn field_name salesforce_model], True)"
    by (simp add: normalize_field_def)
  show "snd (normalize_sf_field_types field_definitions dataframe salesforce_model) = Inl TypeError
        \<or> snd (normalize_sf_field_types field_definitions dataframe salesforce_model) = Inl ValueError
          \<and> InvalidColumn field_name salesforce_model
              \<in> set (fst (normalize_sf_field_types field_definitions dataframe salesforce_model))"
  proof (cases rule: normalize_sf_cases [of field_definitions salesforce_model dataframe])
    case (1 f)
    then show ?thesis by simp
  next
    case (2 frame ms ft)
    from h normalize_columns_field [OF _ 2(1)] nf
    have "InvalidColumn field_name salesforce_model \<in> set ms" "ft" by fastforce+
    moreover from this(1) have "ms \<noteq> []" by auto
    ultimately show ?thesis using 2(2) by simp
  qed
next
  assume "field_definitions bookkeeping_key = None"
  then show "normalize_field field_definitions salesforce_model bookkeeping_key column
            = Inr (column, [], False)"
    by (simp add: normalize_field_def)
next
  assume "field_definitions bookkeeping_key = None"
  then show "normalize_sf_field_types field_definitions [(bookkeeping_key, column)] salesforce_model
            = ([], Inr [(bookkeeping_key, column)])"
    by (simp add: normalize_sf_field_types_def normalize_field_def)
next
  show "\<exists>new. calls (snd (run_upsert_chunk sf w salesforce_model chunk match_on)) = calls w @ new
        \<and> (\<forall>c\<in>set new. \<forall>r\<in>set (call_records c). bookkeeping_key \<notin> fst ` set r)"
    by (rule run_upsert_chunk_strips)
qed

text \<open>
  A DataFrame with an unknown column, one with the bookkeeping key alone, and a chunk of
  one record.
\<close>

theorem unknown_column_is_fatal_witness:
  "(''Nickname'', [PStr ''Al'']) \<in> set [(''LastName'', [PStr ''Ames'']), (''Nickname'', [PStr ''Al''])]
   \<and> contact_fields ''Nickname'' = None \<and> ''Nickname'' \<noteq> bookkeeping_key
   \<and> normalize_sf_field_types contact_fields
         [(''LastName'', [PStr ''Ames'']), (''Nickname'', [PStr ''Al''])] ''Contact''
       = ([InvalidColumn ''LastName'' ''Contact'', InvalidColumn ''Nickname'' ''Contact''],
          Inl ValueError)
   \<and> (snd (normalize_sf_field_types contact_fields
              [(''LastName'', [PStr ''Ames'']), (''Nickname'', [PStr ''Al''])] ''Contact'')
         = Inl TypeError
       \<or> snd (normalize_sf_field_types contact_fields
              [(''LastName'', [PStr ''Ames'']), (''Nickname'', [PStr ''Al''])] ''Contact'')
         = Inl ValueError
         \<and> InvalidColumn ''Nickname'' ''Contact''
             \<in> set (fst (normalize_sf_field_types contact_fields
                  [(''LastName'', [PStr ''Ames'']), (''Nickname'', [PStr ''Al''])] ''Contact'')))
   \<and> contact_fields bookkeeping_key = None
   \<and> normalize_sf_field_types contact_fields [(bookkeeping_key, [PInt 1])] ''Contact''
       = ([], Inr [(bookkeeping_key, [PInt 1])])
   \<and> calls (snd (run_upsert_chunk short_client empty_world ''Contact'' [contact 1 ''Ames''] ''Id''))
       = [BulkUpsert ''Contact'' [[(''LastName'', PStr ''Ames'')]] ''Id'']"
proof -
  have a: "(''Nickname'', [PStr ''Al'']) \<in> set [(''LastName'', [PStr ''Ames'']), (''Nickname'', [PStr ''Al''])]
     \<and> contact_fields ''Nickname'' = None \<and> ''Nickname'' \<noteq> bookkeeping_key"
    by (simp add: contact_fields_def bookkeeping_key_def)
  have b: "contact_fields bookkeeping_key = None"
    by (simp add: contact_fields_def bookkeeping_key_def)
  have c: "calls (snd (run_upsert_chunk short_client empty_world ''Contact'' [contact 1 ''Ames''] ''Id''))
       = [BulkUpsert ''Contact'' [[(''LastName'', PStr ''Ames'')]] ''Id'']"
    by (simp add: run_upsert_chunk_def submit_chunk_def upsert_bulk_wrapper_def short_client_def
        empty_world_def do_call_def emit_def quorum_ids_def contact_def dict_pop_def
        bookkeeping_key_def Let_def)
  note t = unknown_column_is_fatal [of "''Nickname''" "[PStr ''Al'']"
      "[(''LastName'', [PStr ''Ames'']), (''Nickname'', [PStr ''Al''])]" contact_fields "''Contact''"
      short_client empty_world "[contact 1 ''Ames'']" "''Id''"]
  note t' = unknown_column_is_fatal [of "''Nickname''" "[PInt 1]"
      "[(''LastName'', [PStr ''Ames'']), (''Nickname'', [PStr ''Al''])]" contact_fields "''Contact''"
      short_client empty_world "[contact 1 ''Ames'']" "''Id''"]
  have v: "normalize_sf_field_types contact_fields
         [(''LastName'', [PStr ''Ames'']), (''Nickname'', [PStr ''Al''])] ''Contact''
       = ([InvalidColumn ''LastName'' ''Contact'', InvalidColumn ''Nickname'' ''Contact''],
          Inl ValueError)"
    by (simp add: normalize_sf_field_types_def normalize_field_def contact_fields_def
        bookkeeping_key_def)
  from t a have d: "snd (normalize_sf_field_types contact_fields
              [(''LastName'', [PStr ''Ames'']), (''Nickname'', [PStr ''Al''])] ''Contact'')
         = Inl TypeError
       \<or> snd (normalize_sf_field_types contact_fields
              [(''LastName'', [PStr ''Ames'']), (''Nickname'', [PStr ''Al''])] ''Contact'')
         = Inl ValueError
         \<and> InvalidColumn ''Nickname'' ''Contact''
             \<in> set (fst (normalize_sf_field_types contact_fields
                  [(''LastName'', [PStr ''Ames'']), (''Nickname'', [PStr ''Al''])] ''Contact''))"
    by blast
  from t' b have e: "normalize_sf_field_types contact_fields [(bookkeeping_key, [PInt 1])] ''Contact''
       = ([], Inr [(bookkeeping_key, [PInt 1])])" by blast
  from a b c v d e show ?thesis by (intro conjI) simp_all
qed

text \<open>
  Claim C9 at a checkbox field. Salesforce describes it with the type \<open>boolean\<close>,
  the normaliser exempts the type \<open>bool\<close>: the empty string of the boolean column
  is made None and then passes the boolean check, where under the exempted type it stays.
\<close>

theorem boolean_field_empty_value_becomes_none:
  "contact_fields ''Active__c'' = Some \<lparr>fd_type = ''boolean'', fd_length = 0, fd_picklist = None\<rparr>
   \<and> normalize_sf_field_types contact_fields [(''Active__c'', [PStr [], PBool True])] ''Contact''
       = ([], Inr [(''Active__c'', [PNone, PBool True])])
   \<and> bool_typed_fields ''Active__c'' = Some \<lparr>fd_type = ''bool'', fd_length = 0, fd_picklist = None\<rparr>
   \<and> normalize_sf_field_types bool_typed_fields [(''Active__c'', [PStr [], PBool True])] ''Contact''
       = ([UnrecognizedType ''Active__c'' ''bool''], Inr [(''Active__c'', [PStr [], PBool True])])"
  by (simp add: normalize_sf_field_types_def normalize_field_def validate_field_def
      contact_fields_def bool_typed_fields_def empty_to_none_def not_bool_value_def unique_def
      series_map_def infer_dtype_def becomes_float_def Let_def)

section \<open>The checksum of an imported file\<close>

lemma change_check_never_saves:
  "CheckForUpdate True \<notin> set (snd (get_sftp_filepaths_with_change env))"
  by (simp add: get_sftp_filepaths_with_change_def)

text \<open>
  Claim C5 at a changed file whose delivery to Quorum returns False: the checksum is
  saved all the same, and the task reports the failure.
\<close>

theorem checksum_saved_after_failed_delivery:
  "run_task_from_external_crm_to_quorum failing_delivery
     = (Inr (Succeeded False),
        [CheckForUpdate False, LoadFile ''/tmp/contacts.csv'', SendToQuorum ''/tmp/contacts.csv'',
         SaveChecksum ''/tmp/contacts.csv'', RemoveFile ''/tmp/contacts.csv''])"
  by (simp add: run_task_from_external_crm_to_quorum_def get_sftp_filepaths_with_change_def
      failing_delivery_def false_in_def)

section \<open>Storing the new identifiers\<close>

text \<open>
  Claim C6, as the code has it. When the upsert succeeded, the task is set to store the
  Salesforce ids in Quorum, some outcome carries both a Quorum id and a Salesforce id, and
  the model has neither a slug nor an entry in the identifier dictionary, then
  \<open>send_external_df_to_external\<close> notifies with the pairs of identifiers attached and
  raises ValueError.
\<close>

theorem nowhere_to_store_ids_is_fatal:
  assumes run: "run_upsert_to_sf sf w (external_model task) (where_notnull external_df)
                  (batch_size_of task) (sf_match_on task) = (Inr (True, results), w')"
    and store: "sf_store_ids_in_quorum task"
    and ids: "id_update_df results \<noteq> []"
    and no_slug: "external_id_custom_slugs_dict self (quorum_model task) = None
                  \<or> external_id_custom_slugs_dict self (quorum_model task) = Some []"
    and no_entry: "quorum_model task \<notin> set (external_id_dictionary self)"
  shows "send_external_df_to_external sf self w task_name task external_df =
           (Inl ValueError, emit w' (NotifyNowhereToStore task_name (id_update_df results)))"
proof -
  from ids have "results \<noteq> []" by (auto simp: id_update_df_def)
  moreover from no_slug have
    "\<not> (case external_id_custom_slugs_dict self (quorum_model task) of
           None \<Rightarrow> False | Some slug \<Rightarrow> slug \<noteq> [])"
    by auto
  ultimately show ?thesis
    using run store ids no_entry by (simp add: send_external_df_to_external_def Let_def)
qed

lemma two_contacts_upserted:
  "run_upsert_to_sf steady_client empty_world ''Contact''
     (where_notnull [contact 1 ''Ames'', contact 2 ''Baker'']) 10000 None
   = (Inr (True, [\<lparr>o_success = True, o_quorum_id = PInt 1, o_sf_id = PStr ''001''\<rparr>,
                  \<lparr>o_success = True, o_quorum_id = PInt 2, o_sf_id = PStr ''002''\<rparr>]),
      \<lparr>calls = [BulkUpsert ''Contact''
                  [[(''LastName'', PStr ''Ames'')], [(''LastName'', PStr ''Baker'')]] ''Id''],
       events = []\<rparr>)"
  by (simp add: run_upsert_to_sf_def chunked_list.simps [of _ 10000] run_upsert_chunk_def
      submit_chunk_def upsert_bulk_wrapper_def steady_client_def empty_world_def do_call_def
      output_results_def quorum_ids_def record_result_def ok_result_def contact_def dict_get_def
      dict_pop_def bookkeeping_key_def match_on_or_id_def where_notnull_def Let_def)

text \<open>
  Two contacts upserted for a task that stores the identifiers, with no place to store them.
\<close>

theorem nowhere_to_store_ids_is_fatal_witness:
  "sf_store_ids_in_quorum (contacts_task True)
   \<and> external_id_custom_slugs_dict no_destinations (quorum_model (contacts_task True)) = None
   \<and> quorum_model (contacts_task True) \<notin> set (external_id_dictionary no_destinations)
   \<and> send_external_df_to_external steady_client no_destinations empty_world ''contacts''
        (contacts_task True) [contact 1 ''Ames'', contact 2 ''Baker'']
      = (Inl ValueError,
         \<lparr>calls = [BulkUpsert ''Contact''
                     [[(''LastName'', PStr ''Ames'')], [(''LastName'', PStr ''Baker'')]] ''Id''],
          events = [NotifyNowhereToStore ''contacts''
                      [(PInt 1, PStr ''001''), (PInt 2, PStr ''002'')]]\<rparr>)"
proof -
  let ?results = "[\<lparr>o_success = True, o_quorum_id = PInt 1, o_sf_id = PStr ''001''\<rparr>,
                   \<lparr>o_success = True, o_quorum_id = PInt 2, o_sf_id = PStr ''002''\<rparr>]"
  let ?w' = "\<lparr>calls = [BulkUpsert ''Contact''
                  [[(''LastName'', PStr ''Ames'')], [(''LastName'', PStr ''Baker'')]] ''Id''],
       events = []\<rparr>"
  have run: "run_upsert_to_sf steady_client empty_world (external_model (contacts_task True))
       (where_notnull [contact 1 ''Ames'', contact 2 ''Baker'']) (batch_size_of (contacts_task True))
       (sf_match_on (contacts_task True)) = (Inr (True, ?results), ?w')"
    using two_contacts_upserted
    by (simp add: contacts_task_def batch_size_of_def SF_API_MAX_BATCH_SIZE_def)
  have store: "sf_store_ids_in_quorum (contacts_task True)" by (simp add: contacts_task_def)
  have ids: "id_update_df ?results = [(PInt 1, PStr ''001''), (PInt 2, PStr ''002'')]"
    by (simp add: id_update_df_def)
  then have ne: "id_update_df ?results \<noteq> []" by simp
  have no_slug: "external_id_custom_slugs_dict no_destinations (quorum_model (contacts_task True)) = None"
    by (simp add: no_destinations_def)
  then have no_slug': "external_id_custom_slugs_dict no_destinations (quorum_model (contacts_task True)) = None
     \<or> external_id_custom_slugs_dict no_destinations (quorum_model (contacts_task True)) = Some []"
    by simp
  have no_entry: "quorum_model (contacts_task True) \<notin> set (external_id_dictionary no_destinations)"
    by (simp add: no_destinations_def)
  from nowhere_to_store_ids_is_fatal [OF run store ne no_slug' no_entry, of "''contacts''"]
  have "send_external_df_to_external steady_client no_destinations empty_world ''contacts''
        (contacts_task True) [contact 1 ''Ames'', contact 2 ''Baker'']
      = (Inl ValueError,
         \<lparr>calls = [BulkUpsert ''Contact''
                     [[(''LastName'', PStr ''Ames'')], [(''LastName'', PStr ''Baker'')]] ''Id''],
          events = [NotifyNowhereToStore ''contacts''
                      [(PInt 1, PStr ''001''), (PInt 2, PStr ''002'')]]\<rparr>)"
    by (simp add: ids emit_def)
  with store no_slug no_entry show ?thesis by (intro conjI)
qed

text \<open>
  Claim C6 as stated fails: for a task set not to store the identifiers, the same run with
  the same outcomes and no place to store them returns True and notifies nothing.
\<close>

theorem ids_dropped_when_task_does_not_store:
  "external_id_custom_slugs_dict no_destinations (quorum_model (contacts_task False)) = None
   \<and> external_id_dictionary no_destinations = []
   \<and> fst (run_upsert_to_sf steady_client empty_world ''Contact''
             (where_notnull [contact 1 ''Ames'', contact 2 ''Baker'']) 10000 None)
      = Inr (True, [\<lparr>o_success = True, o_quorum_id = PInt 1, o_sf_id = PStr ''001''\<rparr>,
                    \<lparr>o_success = True, o_quorum_id = PInt 2, o_sf_id = PStr ''002''\<rparr>])
   \<and> send_external_df_to_external steady_client no_destinations empty_world ''contacts''
        (contacts_task False) [contact 1 ''Ames'', contact 2 ''Baker'']
      = (Inr True,
         \<lparr>calls = [BulkUpsert ''Contact''
                     [[(''LastName'', PStr ''Ames'')], [(''LastName'', PStr ''Baker'')]] ''Id''],
          events = []\<rparr>)"
  using two_contacts_upserted
  by (simp add: send_external_df_to_external_def contacts_task_def batch_size_of_def
      SF_API_MAX_BATCH_SIZE_def no_destinations_def Let_def)

text \<open>
  A task that is set not to store the identifiers returns True after any successful
  upsert, whatever the outcomes hold, and notifies nothing.
\<close>

lemma task_not_storing_returns_true:
  assumes "run_upsert_to_sf sf w (external_model task) (where_notnull external_df)
             (batch_size_of task) (sf_match_on task) = (Inr (True, results), w')"
    and "\<not> sf_store_ids_in_quorum task"
  shows "send_external_df_to_external sf self w task_name task external_df = (Inr True, w')"
  using assms by (simp add: send_external_df_to_external_def Let_def)

section \<open>The guard of the query\<close>

lemma run_sf_query_error:
  "run_sf_query sf tests w wh ot sel incl = (Inl e, w') \<Longrightarrow> \<exists>k. query_all sf k = Inl e"
  by (auto simp: run_sf_query_def Let_def split: if_splits sum.splits)

lemma query_loop_error:
  "query_loop sf tests async ot sel incl ws w acc = (Inl e, w') \<Longrightarrow> \<exists>k. query_all sf k = Inl e"
proof (induction ws arbitrary: w acc)
  case Nil
  then show ?case by simp
next
  case (Cons x ws)
  obtain res w1 where r: "run_sf_query sf tests w x ot sel incl = (res, w1)"
    by (cases "run_sf_query sf tests w x ot sel incl") auto
  show ?case
  proof (cases res)
    case (Inl e1)
    show ?thesis
    proof (cases async)
      case True
      with Cons.prems r Inl have "query_loop sf tests async ot sel incl ws w1 acc = (Inl e, w')"
        by simp
      then show ?thesis by (rule Cons.IH)
    next
      case False
      with Cons.prems r Inl have "e1 = e" by simp
      with r Inl run_sf_query_error show ?thesis by blast
    qed
  next
    case (Inr recs)
    with Cons.prems r have "query_loop sf tests async ot sel incl ws w1 (acc @ recs) = (Inl e, w')"
      by simp
    then show ?thesis by (rule Cons.IH)
  qed
qed

lemma records_to_frame_error:
  "records_to_frame recs sel fm = Inl e \<Longrightarrow> e = KeyError"
  by (auto simp: records_to_frame_def split: if_splits)

text \<open>
  Claim C10. Without where clauses and without both the search values and the field
  mapping, \<open>query_sf\<close> raises ValueError and the world is as before, so no query was
  issued. With where clauses it raises no ValueError of its own, whatever the search
  values and the field mapping, and the search values play no part.
\<close>

theorem query_sf_needs_where_or_search:
  "(where_clauses = None \<and> \<not> (supplied search_values \<and> supplied field_mapping)
      \<longrightarrow> query_sf sf tests w object_type select_fields search_values field_mapping where_clauses
            include_deleted async_queries = (Inl ValueError, w))
   \<and> ((\<forall>k. query_all sf k \<noteq> Inl ValueError)
      \<longrightarrow> fst (query_sf sf tests w object_type select_fields search_values field_mapping
                 (Some ws) include_deleted async_queries) \<noteq> Inl ValueError)
   \<and> query_sf sf tests w object_type select_fields search_values field_mapping (Some ws)
        include_deleted async_queries
      = query_sf sf tests w object_type select_fields None field_mapping (Some ws)
          include_deleted async_queries"
proof (intro conjI impI)
  assume "where_clauses = None \<and> \<not> (supplied search_values \<and> supplied field_mapping)"
  then show "query_sf sf tests w object_type select_fields search_values field_mapping where_clauses
            include_deleted async_queries = (Inl ValueError, w)"
    by (auto simp: query_sf_def)
next
  assume c: "\<forall>k. query_all sf k \<noteq> Inl ValueError"
  obtain res w' where l: "query_loop sf tests async_queries object_type select_fields
      include_deleted ws w [] = (res, w')"
    by (cases "query_loop sf tests async_queries object_type select_fields include_deleted ws w []")
       auto
  show "fst (query_sf sf tests w object_type select_fields search_values field_mapping
                 (Some ws) include_deleted async_queries) \<noteq> Inl ValueError"
  proof (cases res)
    case (Inl e)
    with l query_loop_error c have "e \<noteq> ValueError" by metis
    with l Inl show ?thesis by (simp add: query_sf_def)
  next
    case (Inr recs)
    have "records_to_frame recs select_fields
            (if supplied field_mapping then field_mapping else None) \<noteq> Inl ValueError"
      using records_to_frame_error by fastforce
    with l Inr show ?thesis by (simp add: query_sf_def)
  qed
next
  show "query_sf sf tests w object_type select_fields search_values field_mapping (Some ws)
        include_deleted async_queries
      = query_sf sf tests w object_type select_fields None field_mapping (Some ws)
          include_deleted async_queries"
    by (simp add: query_sf_def)
qed

text \<open>
  A call with nothing supplied, and a call with one where clause alone.
\<close>

theorem query_sf_needs_where_or_search_witness:
  "query_sf steady_client False empty_world ''Contact'' [''Id''] None None None False False
     = (Inl ValueError, empty_world)
   \<and> (\<forall>k. query_all steady_client k \<noteq> Inl ValueError)
   \<and> fst (query_sf steady_client False empty_world ''Contact'' [''Id''] None None
            (Some [''Name != null'']) False False) \<noteq> Inl ValueError
   \<and> query_sf steady_client False empty_world ''Contact'' [''Id''] None None
            (Some [''Name != null'']) False False
       = (Inr [], \<lparr>calls = [QueryAll ''SELECT Id FROM Contact WHERE Name != null ORDER BY Id'' False],
                   events = []\<rparr>)"
proof -
  have c: "\<forall>k. query_all steady_client k \<noteq> Inl ValueError" by (simp add: steady_client_def)
  note t = query_sf_needs_where_or_search [of None None None steady_client False empty_world
      "''Contact''" "[''Id'']" False False "[''Name != null'']"]
  from t have a: "query_sf steady_client False empty_world ''Contact'' [''Id''] None None None False False
     = (Inl ValueError, empty_world)" by simp
  from t c have b: "fst (query_sf steady_client False empty_world ''Contact'' [''Id''] None None
            (Some [''Name != null'']) False False) \<noteq> Inl ValueError" by blast
  have d: "query_sf steady_client False empty_world ''Contact'' [''Id''] None None
            (Some [''Name != null'']) False False
       = (Inr [], \<lparr>calls = [QueryAll ''SELECT Id FROM Contact WHERE Name != null ORDER BY Id'' False],
                   events = []\<rparr>)"
    by (simp add: query_sf_def run_sf_query_def soql_def records_to_frame_def steady_client_def
        empty_world_def do_call_def Let_def)
  from a c b d show ?thesis by (intro conjI)
qed

end
